theory Spec2Isabelle
  imports Main "HOL-Library.Sublist" "HOL-Library.AList"
begin

section \<open>JavaScript values\<close>

text \<open>
  The module \<^verbatim>\<open>url-utils.js\<close> is dynamically typed: its functions test their
  arguments with \<^verbatim>\<open>!x\<close>, \<^verbatim>\<open>typeof x\<close> and \<^verbatim>\<open>Array.isArray(x)\<close>. Primitive values are
  the type \<open>prim\<close>; a value is a primitive, a reference into the heap (an array or a
  plain data object), or a built-in function. Numbers are the integers (the
  integer-valued doubles below \<open>2^53\<close>); strings are lists of 8-bit characters.
\<close>

datatype prim = JUndefined | JNull | JBool bool | JNum int | JStr string

type_synonym addr = nat

datatype jsval = Prim prim | Ref addr | Builtin string

text \<open>\<^verbatim>\<open>!x\<close> is \<open>\<not> truthy x\<close>: \<^verbatim>\<open>undefined\<close>, \<^verbatim>\<open>null\<close>, \<^verbatim>\<open>false\<close>, \<^verbatim>\<open>0\<close> and \<^verbatim>\<open>""\<close> are falsy.\<close>

fun truthy_prim :: "prim \<Rightarrow> bool" where
  "truthy_prim JUndefined = False"
| "truthy_prim JNull = False"
| "truthy_prim (JBool b) = b"
| "truthy_prim (JNum n) = (n \<noteq> 0)"
| "truthy_prim (JStr s) = (s \<noteq> [])"

fun truthy :: "jsval \<Rightarrow> bool" where
  "truthy (Prim p) = truthy_prim p"
| "truthy (Ref a) = True"
| "truthy (Builtin f) = True"

fun typeof_prim :: "prim \<Rightarrow> string" where
  "typeof_prim JUndefined = ''undefined''"
| "typeof_prim JNull = ''object''"
| "typeof_prim (JBool b) = ''boolean''"
| "typeof_prim (JNum n) = ''number''"
| "typeof_prim (JStr s) = ''string''"

fun typeof :: "jsval \<Rightarrow> string" where
  "typeof (Prim p) = typeof_prim p"
| "typeof (Ref a) = ''object''"
| "typeof (Builtin f) = ''function''"

section \<open>String primitives\<close>

text \<open>\<^verbatim>\<open>String.prototype.toUpperCase\<close> on 8-bit characters: \<^verbatim>\<open>a\<close>..\<^verbatim>\<open>z\<close> go to \<^verbatim>\<open>A\<close>..\<^verbatim>\<open>Z\<close>.\<close>

definition toUpperCase_char :: "char \<Rightarrow> char" where
  "toUpperCase_char c =
     (let n = (of_char c :: nat) in if 97 \<le> n \<and> n \<le> 122 then char_of (n - 32) else c)"

definition toUpperCase :: "string \<Rightarrow> string" where
  "toUpperCase s = map toUpperCase_char s"

text \<open>\<^verbatim>\<open>s.split(sep)\<close> for a one-character separator: never the empty array.\<close>

fun split :: "char \<Rightarrow> string \<Rightarrow> string list" where
  "split sep [] = [[]]"
| "split sep (c # cs) =
     (if c = sep then [] # split sep cs
      else (case split sep cs of [] \<Rightarrow> [[c]] | p # ps \<Rightarrow> (c # p) # ps))"

text \<open>\<^verbatim>\<open>parts.join(sep)\<close>.\<close>

fun join :: "string \<Rightarrow> string list \<Rightarrow> string" where
  "join sep [] = []"
| "join sep [p] = p"
| "join sep (p # q # ps) = p @ sep @ join sep (q # ps)"

text \<open>\<^verbatim>\<open>s.indexOf(pat)\<close>: the index of the first occurrence, \<open>-1\<close> when there is none.\<close>

fun indexOf :: "string \<Rightarrow> string \<Rightarrow> int" where
  "indexOf [] pat = (if pat = [] then 0 else -1)"
| "indexOf (c # cs) pat =
     (if prefix pat (c # cs) then 0
      else (let r = indexOf cs pat in if r = -1 then -1 else r + 1))"

text \<open>\<^verbatim>\<open>s.substring(a, b)\<close> (the arguments swapped when \<open>b < a\<close>) and \<^verbatim>\<open>s.substring(a)\<close>.\<close>

definition substring :: "string \<Rightarrow> nat \<Rightarrow> nat \<Rightarrow> string" where
  "substring s a b = take (max a b - min a b) (drop (min a b) s)"

definition substring_from :: "string \<Rightarrow> nat \<Rightarrow> string" where
  "substring_from s a = drop a s"

section \<open>Hostname parser\<close>

definition DEFAULT_DOMAIN :: string where
  "DEFAULT_DOMAIN = ''cloud-tmp.physicsx.ai''"

definition extractTenantFromHostname :: "jsval \<Rightarrow> prim" where
  "extractTenantFromHostname hostname =
     (if \<not> truthy hostname \<or> typeof hostname \<noteq> ''string'' then JNull
      else (case hostname of
        Prim (JStr h) \<Rightarrow>
          (let parts = split (CHR ''.'') h in
           if length parts < 2 then JNull
           else (let tenant = parts ! 0;
                     domain = join ''.'' (drop 1 parts) in
                 if tenant = [] \<or> domain = [] then JNull
                 else (let kubeflowIndex = indexOf tenant ''-kubeflow'' in
                       if kubeflowIndex \<noteq> -1
                       then JStr (substring tenant 0 (nat kubeflowIndex))
                       else JStr tenant)))
      | _ \<Rightarrow> JNull))"

definition extractDomainFromHostname :: "jsval \<Rightarrow> string" where
  "extractDomainFromHostname hostname =
     (if \<not> truthy hostname \<or> typeof hostname \<noteq> ''string'' then DEFAULT_DOMAIN
      else (case hostname of
        Prim (JStr h) \<Rightarrow>
          (let dotIndex = indexOf h ''.'' in
           if dotIndex = -1 then DEFAULT_DOMAIN
           else substring_from h (nat (dotIndex + 1)))
      | _ \<Rightarrow> DEFAULT_DOMAIN))"

definition getCurrentTenant :: "string \<Rightarrow> prim" where
  "getCurrentTenant window_location_hostname =
     extractTenantFromHostname (Prim (JStr window_location_hostname))"

definition getCurrentDomain :: "string \<Rightarrow> string" where
  "getCurrentDomain window_location_hostname =
     extractDomainFromHostname (Prim (JStr window_location_hostname))"

section \<open>ToString\<close>

text \<open>
  A template literal \<^verbatim>\<open>`${x}`\<close> and the replacement argument of \<^verbatim>\<open>replace\<close> convert a
  primitive with ToString; an integer is printed in decimal.
\<close>

definition digit :: "nat \<Rightarrow> char" where
  "digit d = ''0123456789'' ! d"

fun string_of_nat :: "nat \<Rightarrow> string" where
  "string_of_nat n =
     (let last_digit = digit (n mod 10) in
      if 10 \<le> n then string_of_nat (n div 10) @ [last_digit] else [last_digit])"

declare string_of_nat.simps [simp del]

definition string_of_int :: "int \<Rightarrow> string" where
  "string_of_int i =
     (if i < 0 then CHR ''-'' # string_of_nat (nat (- i)) else string_of_nat (nat i))"

fun ToString :: "prim \<Rightarrow> string" where
  "ToString JUndefined = ''undefined''"
| "ToString JNull = ''null''"
| "ToString (JBool b) = (if b then ''true'' else ''false'')"
| "ToString (JNum n) = string_of_int n"
| "ToString (JStr s) = s"

section \<open>Service table\<close>

record service =
  name :: string
  format :: string
  path :: string

definition SERVICE_CONFIG :: "(string \<times> service) list" where
  "SERVICE_CONFIG =
     [(''MLFLOW'',
         \<lparr>name = ''mlflow'', format = ''tenant-prefix'', path = ''/''\<rparr>),
      (''OPTIMIZER'',
         \<lparr>name = ''optimizer'', format = ''tenant-subdomain'',
          path = ''/platform-app/app/optimizer''\<rparr>),
      (''VAULT'',
         \<lparr>name = ''vault'', format = ''tenant-subdomain'',
          path = ''/vault-filebrowser/files/''\<rparr>),
      (''SIM_WORKBENCH'',
         \<lparr>name = ''sim-workbench'', format = ''tenant-subdomain'',
          path = ''/simlab-react-ui/projects''\<rparr>),
      (''PLATFORM_DOCS'',
         \<lparr>name = ''platform-docs'', format = ''tenant-subdomain'',
          path = ''/documentation/''\<rparr>),
      (''AI_WORKBENCH_DOCS'',
         \<lparr>name = ''ai-workbench'', format = ''tenant-subdomain'',
          path = ''/platform-documentation/ai_workbench/index.html''\<rparr>)]"

text \<open>
  \<^verbatim>\<open>SERVICE_CONFIG[key]\<close> reads an own property of the table or, failing that, a
  property the object literal inherits from \<^verbatim>\<open>Object.prototype\<close> (a function, or the
  prototype itself for \<^verbatim>\<open>__proto__\<close>); otherwise it is \<^verbatim>\<open>undefined\<close>.
\<close>

datatype 'a property = Own 'a | Inherited | Missing

definition Object_prototype_keys :: "string list" where
  "Object_prototype_keys =
     [''constructor'', ''hasOwnProperty'', ''isPrototypeOf'', ''propertyIsEnumerable'',
      ''toLocaleString'', ''toString'', ''valueOf'', ''__proto__'',
      ''__defineGetter__'', ''__defineSetter__'', ''__lookupGetter__'',
      ''__lookupSetter__'']"

definition SERVICE_CONFIG_get :: "string \<Rightarrow> service property" where
  "SERVICE_CONFIG_get key =
     (case map_of SERVICE_CONFIG key of
        Some serviceConfig \<Rightarrow> Own serviceConfig
      | None \<Rightarrow> if key \<in> set Object_prototype_keys then Inherited else Missing)"

section \<open>Service URL generator\<close>

text \<open>
  A call either returns or throws; \<^verbatim>\<open>console.warn\<close> lines are returned beside the
  outcome. \<^verbatim>\<open>window.location.hostname\<close> is the last parameter.
\<close>

datatype error = TypeError

definition generateServiceUrl ::
  "prim \<Rightarrow> prim \<Rightarrow> prim \<Rightarrow> string \<Rightarrow> (error + prim) \<times> string list" where
  "generateServiceUrl serviceName tenant domain window_location_hostname =
     (if \<not> truthy_prim tenant \<or> \<not> truthy_prim serviceName then (Inr JNull, [])
      else (case serviceName of
        JStr s \<Rightarrow>
          (case SERVICE_CONFIG_get (toUpperCase s) of
             Missing \<Rightarrow> (Inr JNull, [''Unknown service: '' @ s])
           | Inherited \<Rightarrow> (Inr JNull, [''Unknown service format: undefined''])
           | Own serviceConfig \<Rightarrow>
               (let targetDomain =
                      (if truthy_prim domain then domain
                       else JStr (extractDomainFromHostname
                                    (Prim (JStr window_location_hostname))))
                in
                if format serviceConfig = ''tenant-prefix''
                then (Inr (JStr (''https://'' @ ToString tenant @ ''-'' @ name serviceConfig
                                 @ ''.'' @ ToString targetDomain @ path serviceConfig)), [])
                else if format serviceConfig = ''tenant-subdomain''
                then (Inr (JStr (''https://'' @ ToString tenant @ ''.''
                                 @ ToString targetDomain @ path serviceConfig)), [])
                else (Inr JNull, [''Unknown service format: '' @ format serviceConfig])))
      | _ \<Rightarrow> (Inl TypeError, [])))"

text \<open>
  The body of \<^verbatim>\<open>Object.keys(SERVICE_CONFIG).forEach\<close>: \<open>urls\<close> is the object being
  filled, in insertion order; an assignment to an existing key replaces its value.
\<close>

fun forEach_serviceKey ::
  "string list \<Rightarrow> prim \<Rightarrow> prim \<Rightarrow> string \<Rightarrow> (string \<times> prim) list \<Rightarrow> string list
     \<Rightarrow> (error + (string \<times> prim) list) \<times> string list" where
  "forEach_serviceKey [] tenant domain hostname urls console = (Inr urls, console)"
| "forEach_serviceKey (serviceKey # keys) tenant domain hostname urls console =
     (case map_of SERVICE_CONFIG serviceKey of
        None \<Rightarrow> (Inl TypeError, console)
      | Some serviceConfig \<Rightarrow>
          (let serviceName = name serviceConfig in
           case generateServiceUrl (JStr serviceKey) tenant domain hostname of
             (Inl e, warnings) \<Rightarrow> (Inl e, console @ warnings)
           | (Inr url, warnings) \<Rightarrow>
               forEach_serviceKey keys tenant domain hostname
                 (AList.update serviceName url urls) (console @ warnings)))"

definition generateAllServiceUrls ::
  "prim \<Rightarrow> prim \<Rightarrow> string \<Rightarrow> (error + (string \<times> prim) list) \<times> string list" where
  "generateAllServiceUrls tenant domain window_location_hostname =
     forEach_serviceKey (map fst SERVICE_CONFIG) tenant domain window_location_hostname [] []"

section \<open>Link placeholder substitution\<close>

text \<open>
  GetSubstitution of ECMAScript, for a match without capture groups: in the
  replacement text \<^verbatim>\<open>$$\<close> stands for a dollar sign, \<^verbatim>\<open>$&\<close> for the matched text,
  \<^verbatim>\<open>$`\<close> for the part of the subject before the match and \<^verbatim>\<open>$'\<close> for the part after
  it; every other character, a \<^verbatim>\<open>$\<close> before a digit or \<^verbatim>\<open><\<close> included, stands for
  itself.
\<close>

fun GetSubstitution :: "string \<Rightarrow> string \<Rightarrow> nat \<Rightarrow> string \<Rightarrow> string" where
  "GetSubstitution matched str position [] = []"
| "GetSubstitution matched str position [c] = [c]"
| "GetSubstitution matched str position (c # d # r) =
     (if c = CHR ''$'' \<and> d = CHR ''$''
        then CHR ''$'' # GetSubstitution matched str position r
      else if c = CHR ''$'' \<and> d = CHR ''&''
        then matched @ GetSubstitution matched str position r
      else if c = CHR ''$'' \<and> d = CHR 0x60
        then take position str @ GetSubstitution matched str position r
      else if c = CHR ''$'' \<and> d = CHR 0x27
        then drop (position + length matched) str @ GetSubstitution matched str position r
      else c # GetSubstitution matched str position (d # r))"

text \<open>
  \<^verbatim>\<open>str.replace(/pat/g, replacement)\<close> for a regular expression that matches the
  non-empty literal text \<open>pat\<close> only: the matches are found from left to right, each
  search starting where the last match ended; \<open>position\<close> is the index in \<open>str\<close> at
  which \<open>rest\<close> starts.
\<close>

function replace_matches ::
  "string \<Rightarrow> string \<Rightarrow> string \<Rightarrow> nat \<Rightarrow> string \<Rightarrow> string" where
  "replace_matches pat replacement str position [] = []"
| "replace_matches pat replacement str position (c # cs) =
     (if pat \<noteq> [] \<and> prefix pat (c # cs)
      then GetSubstitution pat str position replacement
           @ replace_matches pat replacement str (position + length pat)
               (drop (length pat) (c # cs))
      else c # replace_matches pat replacement str (Suc position) cs)"
  by pat_completeness auto
termination
  by (relation "measure (\<lambda>(pat, replacement, str, position, rest). length rest)") auto

definition replace_global :: "string \<Rightarrow> string \<Rightarrow> string \<Rightarrow> string" where
  "replace_global str pat replacement = replace_matches pat replacement str 0 str"

definition processExternalLink ::
  "jsval \<Rightarrow> prim \<Rightarrow> prim \<Rightarrow> string \<Rightarrow> error + jsval" where
  "processExternalLink link tenant domain window_location_hostname =
     (if \<not> truthy link \<or> \<not> truthy_prim tenant then Inr link
      else (let targetDomain =
                  (if truthy_prim domain then domain
                   else JStr (getCurrentDomain window_location_hostname))
            in case link of
                 Prim (JStr l) \<Rightarrow>
                   Inr (Prim (JStr (replace_global
                                      (replace_global l ''${TENANT}'' (ToString tenant))
                                      ''${DOMAIN}'' (ToString targetDomain))))
               | _ \<Rightarrow> Inl TypeError))"

section \<open>Arrays and objects\<close>

text \<open>
  Arrays and objects live in a heap; an address is an index into it and allocation
  appends. An object is the map of its own enumerable properties. The objects of the
  input are plain data objects: their prototype is \<^verbatim>\<open>Object.prototype\<close>, and every
  property is a writable data property. The prototype of an object is not recorded.
\<close>

datatype heapobj = JArray "jsval list" | JObject "string \<Rightarrow> jsval option"

type_synonym heap = "heapobj list"

definition heap_get :: "heap \<Rightarrow> addr \<Rightarrow> heapobj option" where
  "heap_get h a = (if a < length h then Some (h ! a) else None)"

definition alloc :: "heap \<Rightarrow> heapobj \<Rightarrow> addr \<times> heap" where
  "alloc h obj = (length h, h @ [obj])"

definition isArray :: "heap \<Rightarrow> jsval \<Rightarrow> bool" where
  "isArray h v =
     (case v of
        Ref a \<Rightarrow> (case heap_get h a of Some (JArray xs) \<Rightarrow> True | _ \<Rightarrow> False)
      | _ \<Rightarrow> False)"

text \<open>The indexed properties \<^verbatim>\<open>"0"\<close>, \<^verbatim>\<open>"1"\<close>, ... of an array or a string.\<close>

definition indexed :: "jsval list \<Rightarrow> string \<Rightarrow> jsval option" where
  "indexed xs = map_of (zip (map string_of_nat [0..<length xs]) xs)"

text \<open>The own enumerable properties of a value, as \<^verbatim>\<open>Object.assign\<close> reads them.\<close>

definition own_enumerable :: "heap \<Rightarrow> jsval \<Rightarrow> string \<Rightarrow> jsval option" where
  "own_enumerable h source =
     (case source of
        Prim (JStr s) \<Rightarrow> indexed (map (\<lambda>c. Prim (JStr [c])) s)
      | Prim _ \<Rightarrow> Map.empty
      | Builtin f \<Rightarrow> Map.empty
      | Ref a \<Rightarrow>
          (case heap_get h a of
             Some (JObject props) \<Rightarrow> props
           | Some (JArray xs) \<Rightarrow> indexed xs
           | None \<Rightarrow> Map.empty))"

text \<open>
  \<^verbatim>\<open>Object.assign({}, source)\<close> assigns each own enumerable property of the source to
  the new object with an ordinary assignment \<^verbatim>\<open>target[key] = value\<close>. For the key
  \<^verbatim>\<open>__proto__\<close> that assignment runs the setter the new object inherits from
  \<^verbatim>\<open>Object.prototype\<close> (it changes the prototype of the new object when the value is an
  object or \<^verbatim>\<open>null\<close>, and does nothing otherwise) and creates no property: an own
  \<^verbatim>\<open>__proto__\<close> property of the source, as \<^verbatim>\<open>JSON.parse\<close> creates one, is never an own
  property of the copy. Every other key becomes an own property of it.
\<close>

definition Object_assign_empty :: "heap \<Rightarrow> jsval \<Rightarrow> string \<Rightarrow> jsval option" where
  "Object_assign_empty h source = (own_enumerable h source)(''__proto__'' := None)"

text \<open>
  The expression \<^verbatim>\<open>link.link\<close>: a \<^verbatim>\<open>TypeError\<close> on \<^verbatim>\<open>null\<close> and \<^verbatim>\<open>undefined\<close>, the
  built-in method \<^verbatim>\<open>String.prototype.link\<close> on a string, the own property of a plain
  object, and \<^verbatim>\<open>undefined\<close> where neither the value nor its prototype has the property.
\<close>

definition get_link :: "heap \<Rightarrow> jsval \<Rightarrow> error + jsval" where
  "get_link h v =
     (case v of
        Prim JUndefined \<Rightarrow> Inl TypeError
      | Prim JNull \<Rightarrow> Inl TypeError
      | Prim (JStr s) \<Rightarrow> Inr (Builtin ''String.prototype.link'')
      | Prim _ \<Rightarrow> Inr (Prim JUndefined)
      | Builtin f \<Rightarrow> Inr (Prim JUndefined)
      | Ref a \<Rightarrow>
          (case heap_get h a of
             Some (JObject props) \<Rightarrow>
               (case props ''link'' of Some x \<Rightarrow> Inr x | None \<Rightarrow> Inr (Prim JUndefined))
           | _ \<Rightarrow> Inr (Prim JUndefined)))"

text \<open>The assignment \<^verbatim>\<open>obj.key = v\<close> to the object at address \<open>a\<close>.\<close>

definition set_property :: "heap \<Rightarrow> addr \<Rightarrow> string \<Rightarrow> jsval \<Rightarrow> heap" where
  "set_property h a key v =
     (case heap_get h a of
        Some (JObject props) \<Rightarrow> h[a := JObject (props(key \<mapsto> v))]
      | _ \<Rightarrow> h)"

text \<open>The arrow function passed to \<^verbatim>\<open>externalLinks.map\<close>.\<close>

definition process_element ::
  "prim \<Rightarrow> prim \<Rightarrow> string \<Rightarrow> jsval \<Rightarrow> heap \<Rightarrow> error + (jsval \<times> heap)" where
  "process_element tenant domain hostname link h =
     (let (processedLink, h1) = alloc h (JObject (Object_assign_empty h link)) in
      case get_link h1 link of
        Inl e \<Rightarrow> Inl e
      | Inr l \<Rightarrow>
          (case processExternalLink l tenant domain hostname of
             Inl e \<Rightarrow> Inl e
           | Inr processed \<Rightarrow>
               Inr (Ref processedLink, set_property h1 processedLink ''link'' processed)))"

text \<open>
  \<^verbatim>\<open>Array.prototype.map\<close>: the callback runs on each element in order. The new array
  is allocated once its elements are known; JavaScript creates it before the first
  call, which only changes the addresses, and a program cannot observe those.
\<close>

fun array_map ::
  "(jsval \<Rightarrow> heap \<Rightarrow> error + (jsval \<times> heap)) \<Rightarrow> jsval list \<Rightarrow> heap
     \<Rightarrow> error + (jsval list \<times> heap)" where
  "array_map f [] h = Inr ([], h)"
| "array_map f (x # xs) h =
     (case f x h of
        Inl e \<Rightarrow> Inl e
      | Inr (y, h1) \<Rightarrow>
          (case array_map f xs h1 of
             Inl e \<Rightarrow> Inl e
           | Inr (ys, h2) \<Rightarrow> Inr (y # ys, h2)))"

definition processExternalLinks ::
  "jsval \<Rightarrow> prim \<Rightarrow> prim \<Rightarrow> string \<Rightarrow> heap \<Rightarrow> error + (jsval \<times> heap)" where
  "processExternalLinks externalLinks tenant domain window_location_hostname h =
     (if \<not> isArray h externalLinks \<or> \<not> truthy_prim tenant then Inr (externalLinks, h)
      else (case externalLinks of
        Ref a \<Rightarrow>
          (case heap_get h a of
             Some (JArray links) \<Rightarrow>
               (case array_map (process_element tenant domain window_location_hostname)
                       links h of
                  Inl e \<Rightarrow> Inl e
                | Inr (out, h1) \<Rightarrow>
                    (let (result, h2) = alloc h1 (JArray out) in Inr (Ref result, h2)))
           | _ \<Rightarrow> Inr (externalLinks, h))
      | _ \<Rightarrow> Inr (externalLinks, h)))"

section \<open>Literal substitution, as the specification words it\<close>

text \<open>
  Every occurrence of \<open>token\<close> in the text, found from left to right, is replaced by
  \<open>v\<close> itself, character for character.
\<close>

function substitute_all :: "string \<Rightarrow> string \<Rightarrow> string \<Rightarrow> string" where
  "substitute_all token v [] = []"
| "substitute_all token v (c # cs) =
     (if token \<noteq> [] \<and> prefix token (c # cs)
      then v @ substitute_all token v (drop (length token) (c # cs))
      else c # substitute_all token v cs)"
  by pat_completeness auto
termination
  by (relation "measure (\<lambda>(token, v, rest). length rest)") auto

section \<open>Facts about the string primitives\<close>

lemma split_first:
  "sep \<notin> set lab \<Longrightarrow> split sep (lab @ sep # rest) = lab # split sep rest"
  by (induction lab) (auto split: list.splits)

lemma split_nonempty: "split sep s \<noteq> []"
  by (induction s) (auto split: list.splits)

lemma join_split: "join [sep] (split sep s) = s"
proof (induction s)
  case Nil
  show ?case by simp
next
  case (Cons c cs)
  obtain p ps where ps: "split sep cs = p # ps"
    using split_nonempty [of sep cs] by (cases "split sep cs") auto
  show ?case
  proof (cases "c = sep")
    case True
    with Cons ps show ?thesis by simp
  next
    case False
    with Cons ps show ?thesis by (cases ps) auto
  qed
qed

lemma indexOf_ge: "-1 \<le> indexOf s pat"
  by (induction s) (auto simp: Let_def)

lemma indexOf_none: "indexOf s pat = -1 \<longleftrightarrow> \<not> sublist pat s"
proof (induction s)
  case Nil
  show ?case by (cases pat) auto
next
  case (Cons c cs)
  have "indexOf cs pat + 1 \<noteq> -1" using indexOf_ge [of cs pat] by arith
  with Cons show ?case by (auto simp: Let_def sublist_Cons_right)
qed

lemma indexOf_first:
  assumes "s = before @ pat @ after"
    and "\<And>b a. s = b @ pat @ a \<Longrightarrow> length before \<le> length b"
  shows "indexOf s pat = int (length before)"
  using assms
proof (induction before arbitrary: s)
  case Nil
  have "prefix pat s" using Nil(1) by simp
  then show ?case by (cases s) auto
next
  case (Cons x xs)
  have np: "\<not> prefix pat (x # xs @ pat @ after)"
  proof
    assume "prefix pat (x # xs @ pat @ after)"
    then obtain a where "x # xs @ pat @ after = [] @ pat @ a" by (auto simp: prefix_def)
    with Cons.prems(2) [of "[]" a] Cons.prems(1) show False by simp
  qed
  have "indexOf (xs @ pat @ after) pat = int (length xs)"
  proof (rule Cons.IH [OF refl])
    fix b a assume "xs @ pat @ after = b @ pat @ a"
    then have "s = (x # b) @ pat @ a" using Cons.prems(1) by simp
    from Cons.prems(2) [OF this] show "length xs \<le> length b" by simp
  qed
  with np Cons.prems(1) show ?case by (simp add: Let_def)
qed

lemma indexOf_char_first:
  "c \<notin> set pre \<Longrightarrow> indexOf (pre @ c # post) [c] = int (length pre)"
  by (induction pre) (auto simp: Let_def)

lemma indexOf_char_none: "indexOf s [c] = -1 \<longleftrightarrow> c \<notin> set s"
proof (induction s)
  case Nil show ?case by simp
next
  case (Cons x xs)
  have "indexOf xs [c] + 1 \<noteq> -1" using indexOf_ge [of xs "[c]"] by arith
  with Cons show ?case by (auto simp: Let_def)
qed

lemma extractDomain_string:
  "extractDomainFromHostname (Prim (JStr s)) =
     (if CHR ''.'' \<in> set s then drop (Suc (length (takeWhile (\<lambda>c. c \<noteq> CHR ''.'') s))) s
      else DEFAULT_DOMAIN)"
proof (cases "CHR ''.'' \<in> set s")
  case False
  then have "indexOf s ''.'' = -1" by (simp add: indexOf_char_none)
  with False show ?thesis
    by (simp add: extractDomainFromHostname_def Let_def)
next
  case True
  then obtain pre post where s: "s = pre @ CHR ''.'' # post" and n: "CHR ''.'' \<notin> set pre"
    by (auto dest: split_list_first)
  have i: "indexOf s ''.'' = int (length pre)" using s n by (simp add: indexOf_char_first)
  have tw: "takeWhile (\<lambda>c. c \<noteq> CHR ''.'') s = pre" using s n
    by (simp add: takeWhile_append)
  have "s \<noteq> []" using s by simp
  with True i tw s show ?thesis
    by (simp add: extractDomainFromHostname_def Let_def substring_from_def nat_add_distrib)
qed

lemma extractDomain_nonstring:
  "(\<And>s. hostname \<noteq> Prim (JStr s)) \<Longrightarrow> extractDomainFromHostname hostname = DEFAULT_DOMAIN"
  by (cases hostname; simp add: extractDomainFromHostname_def split: prim.splits)

section \<open>The hostname parser\<close>

text \<open>
  Claim C5. For every input, \<open>extractDomainFromHostname\<close> returns the default domain
  \<^verbatim>\<open>cloud-tmp.physicsx.ai\<close> when the input is not a non-empty string or contains no
  dot, and otherwise the part of the hostname strictly after its first dot; the result
  is never the whole hostname. The two examples of the specification are included.
\<close>

theorem extractDomainFromHostname_spec:
  "(\<not> (\<exists>s. hostname = Prim (JStr s) \<and> s \<noteq> [] \<and> CHR ''.'' \<in> set s)
      \<longrightarrow> extractDomainFromHostname hostname = DEFAULT_DOMAIN)
   \<and> (\<forall>pre post. hostname = Prim (JStr (pre @ CHR ''.'' # post)) \<and> CHR ''.'' \<notin> set pre
          \<longrightarrow> extractDomainFromHostname hostname = post)
   \<and> Prim (JStr (extractDomainFromHostname hostname)) \<noteq> hostname
   \<and> DEFAULT_DOMAIN = ''cloud-tmp.physicsx.ai''
   \<and> extractDomainFromHostname (Prim (JStr ''ramsay.cloud-tmp.physicsx.ai''))
       = ''cloud-tmp.physicsx.ai''
   \<and> extractDomainFromHostname (Prim (JStr ''nodothost'')) = ''cloud-tmp.physicsx.ai''"
proof -
  have dflt: "extractDomainFromHostname hostname = DEFAULT_DOMAIN"
    if "\<not> (\<exists>s. hostname = Prim (JStr s) \<and> s \<noteq> [] \<and> CHR ''.'' \<in> set s)"
  proof (cases "\<exists>s. hostname = Prim (JStr s)")
    case True
    then obtain s where s: "hostname = Prim (JStr s)" by blast
    with that have "CHR ''.'' \<notin> set s" by auto
    with s show ?thesis by (simp add: extractDomain_string)
  next
    case False
    then show ?thesis by (intro extractDomain_nonstring) blast
  qed
  have aft: "extractDomainFromHostname hostname = post"
    if "hostname = Prim (JStr (pre @ CHR ''.'' # post))" "CHR ''.'' \<notin> set pre" for pre post
    using that by (simp add: extractDomain_string takeWhile_append)
  have differs: "Prim (JStr (extractDomainFromHostname hostname)) \<noteq> hostname"
  proof
    assume eq: "Prim (JStr (extractDomainFromHostname hostname)) = hostname"
    then obtain s where s: "hostname = Prim (JStr s)" by metis
    with eq have fx: "extractDomainFromHostname (Prim (JStr s)) = s" by simp
    show False
    proof (cases "CHR ''.'' \<in> set s")
      case True
      with fx have "drop (Suc (length (takeWhile (\<lambda>c. c \<noteq> CHR ''.'') s))) s = s"
        by (simp add: extractDomain_string)
      then have "length s - Suc (length (takeWhile (\<lambda>c. c \<noteq> CHR ''.'') s)) = length s"
        by (metis length_drop)
      moreover have "s \<noteq> []" using True by auto
      ultimately show False by (cases s) auto
    next
      case False
      with fx have "s = DEFAULT_DOMAIN" by (simp add: extractDomain_string)
      with False show False by (simp add: DEFAULT_DOMAIN_def)
    qed
  qed
  have ex1: "extractDomainFromHostname (Prim (JStr ''ramsay.cloud-tmp.physicsx.ai''))
               = ''cloud-tmp.physicsx.ai''"
    by (simp add: extractDomain_string)
  have ex2: "extractDomainFromHostname (Prim (JStr ''nodothost'')) = ''cloud-tmp.physicsx.ai''"
    by (simp add: extractDomain_string DEFAULT_DOMAIN_def)
  have dd: "DEFAULT_DOMAIN = ''cloud-tmp.physicsx.ai''" by (simp add: DEFAULT_DOMAIN_def)
  from dflt aft differs ex1 ex2 dd show ?thesis by blast
qed

theorem extractDomainFromHostname_spec_witness:
  "extractDomainFromHostname (Prim (JNum 42)) = ''cloud-tmp.physicsx.ai''
   \<and> extractDomainFromHostname (Prim (JStr ''a.b.c'')) = ''b.c''
   \<and> extractDomainFromHostname (Prim (JStr ''a.'')) = []"
proof -
  have "\<not> (\<exists>s. Prim (JNum 42) = Prim (JStr s) \<and> s \<noteq> [] \<and> CHR ''.'' \<in> set s)" by simp
  with extractDomainFromHostname_spec [of "Prim (JNum 42)"]
  have a: "extractDomainFromHostname (Prim (JNum 42)) = ''cloud-tmp.physicsx.ai''" by metis
  have "Prim (JStr ''a.b.c'') = Prim (JStr (''a'' @ CHR ''.'' # ''b.c'')) \<and> CHR ''.'' \<notin> set ''a''"
    by simp
  with extractDomainFromHostname_spec [of "Prim (JStr ''a.b.c'')"]
  have b: "extractDomainFromHostname (Prim (JStr ''a.b.c'')) = ''b.c''" by blast
  have "Prim (JStr ''a.'') = Prim (JStr (''a'' @ CHR ''.'' # [])) \<and> CHR ''.'' \<notin> set ''a''"
    by simp
  with extractDomainFromHostname_spec [of "Prim (JStr ''a.'')"]
  have c: "extractDomainFromHostname (Prim (JStr ''a.'')) = []" by blast
  from a b c show ?thesis by simp
qed

lemma substring_0: "substring s 0 n = take n s"
  by (simp add: substring_def)

lemma split_no_sep: "sep \<notin> set s \<Longrightarrow> split sep s = [s]"
  by (induction s) auto

lemma extractTenant_nonstring:
  "(\<And>s. hostname \<noteq> Prim (JStr s)) \<Longrightarrow> extractTenantFromHostname hostname = JNull"
  by (cases hostname; simp add: extractTenantFromHostname_def split: prim.splits)

lemma extractTenant_no_dot:
  "CHR ''.'' \<notin> set s \<Longrightarrow> extractTenantFromHostname (Prim (JStr s)) = JNull"
  by (simp add: extractTenantFromHostname_def split_no_sep)

lemma extractTenant_dot:
  assumes "CHR ''.'' \<notin> set label"
  shows "extractTenantFromHostname (Prim (JStr (label @ CHR ''.'' # rest))) =
           (if label = [] \<or> rest = [] then JNull
            else if indexOf label ''-kubeflow'' \<noteq> -1
              then JStr (take (nat (indexOf label ''-kubeflow'')) label)
            else JStr label)"
proof -
  obtain p ps where ps: "split (CHR ''.'') rest = p # ps"
    using split_nonempty [of "CHR ''.''" rest] by (cases "split (CHR ''.'') rest") auto
  have j: "join ''.'' (p # ps) = rest"
    using join_split [of "CHR ''.''" rest] ps by simp
  show ?thesis
    using assms ps j
    by (simp add: extractTenantFromHostname_def split_first Let_def substring_0)
qed

text \<open>
  Claim C2, as amended. Take a hostname whose first label (the text before its first
  dot) is non-empty. When the remainder after that dot is non-empty,
  \<open>extractTenantFromHostname\<close> returns the first label, except that when the label
  contains \<^verbatim>\<open>-kubeflow\<close> it returns the part of the label strictly before the first
  occurrence. When the remainder after that dot is empty, it returns \<^verbatim>\<open>null\<close>. The two
  examples of the specification are included.
\<close>

theorem extractTenantFromHostname_first_label:
  assumes "CHR ''.'' \<notin> set label" and "label \<noteq> []"
  shows "(rest \<noteq> [] \<and> \<not> sublist ''-kubeflow'' label \<longrightarrow>
            extractTenantFromHostname (Prim (JStr (label @ CHR ''.'' # rest))) = JStr label)
       \<and> (\<forall>before after.
             rest \<noteq> []
             \<and> label = before @ ''-kubeflow'' @ after
             \<and> (\<forall>b a. label = b @ ''-kubeflow'' @ a \<longrightarrow> length before \<le> length b)
             \<longrightarrow> extractTenantFromHostname (Prim (JStr (label @ CHR ''.'' # rest)))
                   = JStr before)
       \<and> (rest = [] \<longrightarrow>
            extractTenantFromHostname (Prim (JStr (label @ CHR ''.'' # rest))) = JNull)
       \<and> extractTenantFromHostname (Prim (JStr ''ramsay.cloud-tmp.physicsx.ai''))
           = JStr ''ramsay''
       \<and> extractTenantFromHostname (Prim (JStr ''demo-dev-kubeflow.cloud-tmp.physicsx.ai''))
           = JStr ''demo-dev''"
proof -
  let ?r = "extractTenantFromHostname (Prim (JStr (label @ CHR ''.'' # rest)))"
  have plain: "?r = JStr label" if "rest \<noteq> []" "\<not> sublist ''-kubeflow'' label"
  proof -
    from that(2) have "indexOf label ''-kubeflow'' = -1" by (simp add: indexOf_none)
    with assms that(1) show ?thesis by (simp add: extractTenant_dot)
  qed
  have cut: "?r = JStr before"
    if "rest \<noteq> []" and "label = before @ ''-kubeflow'' @ after"
      and "\<forall>b a. label = b @ ''-kubeflow'' @ a \<longrightarrow> length before \<le> length b"
    for before after
  proof -
    have i: "indexOf label ''-kubeflow'' = int (length before)"
    proof (rule indexOf_first [OF that(2)])
      fix b a assume "label = b @ ''-kubeflow'' @ a"
      with that(3) show "length before \<le> length b" by blast
    qed
    have "?r = JStr (take (length before) label)"
      using assms that(1) i by (simp add: extractTenant_dot)
    moreover have "take (length before) label = before"
      using that(2) by simp
    ultimately show ?thesis by simp
  qed
  have none: "?r = JNull" if "rest = []"
    using assms(1) that by (simp add: extractTenant_dot)
  have ex1: "extractTenantFromHostname (Prim (JStr ''ramsay.cloud-tmp.physicsx.ai''))
               = JStr ''ramsay''"
    by code_simp
  have ex2: "extractTenantFromHostname (Prim (JStr ''demo-dev-kubeflow.cloud-tmp.physicsx.ai''))
               = JStr ''demo-dev''"
    by code_simp
  from plain cut none ex1 ex2 show ?thesis by blast
qed

theorem extractTenantFromHostname_first_label_witness:
  "extractTenantFromHostname (Prim (JStr ''demo-dev.example.org'')) = JStr ''demo-dev''
   \<and> extractTenantFromHostname (Prim (JStr ''ab-kubeflow-kubeflow.example.org'')) = JStr ''ab''
   \<and> extractTenantFromHostname (Prim (JStr ''demo-dev.'')) = JNull"
proof -
  have h1: "CHR ''.'' \<notin> set ''demo-dev''" "''demo-dev'' \<noteq> []"
    by simp_all
  have r: "''example.org'' \<noteq> []" by simp
  have n1: "\<not> sublist ''-kubeflow'' ''demo-dev''" by code_simp
  from extractTenantFromHostname_first_label [OF h1, of "''example.org''"] r n1
  have a: "extractTenantFromHostname (Prim (JStr (''demo-dev'' @ CHR ''.'' # ''example.org'')))
             = JStr ''demo-dev''" by blast
  from extractTenantFromHostname_first_label [OF h1, of "[]"]
  have c: "extractTenantFromHostname (Prim (JStr (''demo-dev'' @ CHR ''.'' # []))) = JNull"
    by blast
  have h2: "CHR ''.'' \<notin> set ''ab-kubeflow-kubeflow''" "''ab-kubeflow-kubeflow'' \<noteq> []"
    by simp_all
  have d2: "''ab-kubeflow-kubeflow'' = ''ab'' @ ''-kubeflow'' @ ''-kubeflow''" by simp
  have f2: "\<forall>b a. ''ab-kubeflow-kubeflow'' = b @ ''-kubeflow'' @ a \<longrightarrow> length ''ab'' \<le> length b"
  proof (intro allI impI)
    fix b a :: string
    assume e: "''ab-kubeflow-kubeflow'' = b @ ''-kubeflow'' @ a"
    show "length ''ab'' \<le> length b"
    proof (rule ccontr)
      assume "\<not> length ''ab'' \<le> length b"
      then have "length b < 2" by simp
      then consider "b = []" | "\<exists>x. b = [x]"
        by (cases b; cases "tl b") auto
      then show False using e by cases auto
    qed
  qed
  from extractTenantFromHostname_first_label [OF h2, of "''example.org''"] r d2 f2
  have b: "extractTenantFromHostname (Prim (JStr (''ab-kubeflow-kubeflow'' @ CHR ''.'' # ''example.org'')))
             = JStr ''ab''" by blast
  from a b c show ?thesis by simp
qed

text \<open>
  Claim C2 as stated asks only for two dot-separated labels and a non-empty first
  label. The hostname \<^verbatim>\<open>a.\<close> splits into the two labels \<^verbatim>\<open>a\<close> and the empty one, yet the
  result is \<^verbatim>\<open>null\<close>, not \<^verbatim>\<open>a\<close>: the code rejects an empty domain side.
\<close>

theorem extractTenantFromHostname_trailing_dot:
  "''a.'' = ''a'' @ CHR ''.'' # [] \<and> split (CHR ''.'') ''a.'' = [''a'', []]
   \<and> \<not> sublist ''-kubeflow'' ''a''
   \<and> extractTenantFromHostname (Prim (JStr ''a.'')) = JNull"
  by code_simp


lemma indexOf_zero: "indexOf s pat = 0 \<longleftrightarrow> prefix pat s"
proof (cases s)
  case Nil
  then show ?thesis by auto
next
  case (Cons c cs)
  have "indexOf cs pat + 1 \<noteq> 0 \<or> indexOf cs pat = -1"
    using indexOf_ge [of cs pat] by arith
  with Cons show ?thesis by (auto simp: Let_def)
qed

lemma extractTenant_empty_iff:
  assumes "CHR ''.'' \<notin> set label"
  shows "extractTenantFromHostname (Prim (JStr (label @ CHR ''.'' # rest))) = JStr []
           \<longleftrightarrow> rest \<noteq> [] \<and> prefix ''-kubeflow'' label"
proof (cases "label = [] \<or> rest = []")
  case True
  then show ?thesis using assms by (auto simp: extractTenant_dot)
next
  case False
  then have l: "label \<noteq> []" and r: "rest \<noteq> []" by auto
  show ?thesis
  proof (cases "indexOf label ''-kubeflow'' = -1")
    case True
    then have "\<not> prefix ''-kubeflow'' label"
      using indexOf_zero [of label "''-kubeflow''"] by auto
    with True l r assms show ?thesis by (simp add: extractTenant_dot)
  next
    case n: False
    have ge: "0 \<le> indexOf label ''-kubeflow''"
      using n indexOf_ge [of label "''-kubeflow''"] by arith
    have "take (nat (indexOf label ''-kubeflow'')) label = []
            \<longleftrightarrow> indexOf label ''-kubeflow'' = 0"
      using l ge by (cases label) (auto simp: take_Cons split: nat.splits)
    with n l r assms show ?thesis
      by (simp add: extractTenant_dot indexOf_zero)
  qed
qed

lemma extractTenant_null_or_string:
  "extractTenantFromHostname hostname = JNull
   \<or> (\<exists>t. extractTenantFromHostname hostname = JStr t)"
  by (cases hostname; simp add: extractTenantFromHostname_def Let_def split: prim.splits)

text \<open>
  Claim C3 says that \<open>extractTenantFromHostname\<close> returns \<^verbatim>\<open>null\<close> or a non-empty
  string, never the empty string. The emptiness check of the code runs before the
  \<^verbatim>\<open>-kubeflow\<close> suffix is cut off, so a first label that starts with \<^verbatim>\<open>-kubeflow\<close> yields
  the empty string.
\<close>

theorem extractTenantFromHostname_returns_empty:
  "extractTenantFromHostname (Prim (JStr ''-kubeflow.cloud-tmp.physicsx.ai'')) = JStr []"
  by code_simp

theorem extractTenantFromHostname_returns_empty_witness:
  "\<not> truthy_prim (extractTenantFromHostname (Prim (JStr ''-kubeflow.cloud-tmp.physicsx.ai'')))
   \<and> extractTenantFromHostname (Prim (JStr ''-kubeflow.cloud-tmp.physicsx.ai'')) \<noteq> JNull"
  using extractTenantFromHostname_returns_empty by simp

section \<open>The service URL generator\<close>

lemma upper_range:
  "97 \<le> (n::nat) \<Longrightarrow> n \<le> 122 \<Longrightarrow> \<not> (97 \<le> (n - 32) mod 256 \<and> (n - 32) mod 256 \<le> 122)"
  by (simp add: mod_less)

lemma toUpperCase_char_other:
  "\<not> (97 \<le> (of_char c :: nat) \<and> (of_char c :: nat) \<le> 122) \<Longrightarrow> toUpperCase_char c = c"
  unfolding toUpperCase_char_def Let_def by (rule if_not_P)

lemma toUpperCase_char_lower:
  "97 \<le> (of_char c :: nat) \<and> (of_char c :: nat) \<le> 122 \<Longrightarrow>
     toUpperCase_char c = char_of ((of_char c :: nat) - 32)"
  unfolding toUpperCase_char_def Let_def by (rule if_P)

lemma upper_char_not_lower:
  "\<not> (97 \<le> (of_char (toUpperCase_char c) :: nat) \<and> (of_char (toUpperCase_char c) :: nat) \<le> 122)"
proof (cases "97 \<le> (of_char c :: nat) \<and> (of_char c :: nat) \<le> 122")
  case True
  have "(of_char (char_of ((of_char c :: nat) - 32)) :: nat) = ((of_char c :: nat) - 32) mod 256"
    by (rule of_char_of)
  with toUpperCase_char_lower [OF True]
  have "(of_char (toUpperCase_char c) :: nat) = ((of_char c :: nat) - 32) mod 256"
    by (rule ssubst)
  with upper_range [of "of_char c"] True show ?thesis by metis
next
  case False
  with toUpperCase_char_other [OF False] show ?thesis by metis
qed

lemma toUpperCase_not_lower:
  "c \<in> set (toUpperCase s) \<Longrightarrow> \<not> (97 \<le> (of_char c :: nat) \<and> (of_char c :: nat) \<le> 122)"
  using upper_char_not_lower by (auto simp: toUpperCase_def)

lemma prototype_keys_lower:
  "k \<in> set Object_prototype_keys \<Longrightarrow>
     \<exists>c \<in> set k. 97 \<le> (of_char c :: nat) \<and> (of_char c :: nat) \<le> 122"
  by (auto simp: Object_prototype_keys_def)

lemma toUpperCase_not_inherited: "toUpperCase s \<notin> set Object_prototype_keys"
  using prototype_keys_lower [of "toUpperCase s"] toUpperCase_not_lower [of _ s]
  by blast

lemma SERVICE_CONFIG_get_upper:
  "SERVICE_CONFIG_get (toUpperCase s) =
     (case map_of SERVICE_CONFIG (toUpperCase s) of Some c \<Rightarrow> Own c | None \<Rightarrow> Missing)"
  by (simp add: SERVICE_CONFIG_get_def toUpperCase_not_inherited split: option.splits)

lemma toUpperCase_keys:
  "toUpperCase ''MLFLOW'' = ''MLFLOW''"
  "toUpperCase ''OPTIMIZER'' = ''OPTIMIZER''"
  "toUpperCase ''VAULT'' = ''VAULT''"
  "toUpperCase ''SIM_WORKBENCH'' = ''SIM_WORKBENCH''"
  "toUpperCase ''PLATFORM_DOCS'' = ''PLATFORM_DOCS''"
  "toUpperCase ''AI_WORKBENCH_DOCS'' = ''AI_WORKBENCH_DOCS''"
  by code_simp+

lemma toUpperCase_Nil_iff: "toUpperCase s = [] \<longleftrightarrow> s = []"
  by (simp add: toUpperCase_def)

lemma SERVICE_CONFIG_formats:
  "map_of SERVICE_CONFIG k = Some cfg \<Longrightarrow>
     k \<noteq> [] \<and> (format cfg = ''tenant-prefix'' \<or> format cfg = ''tenant-subdomain'')"
  by (auto simp: SERVICE_CONFIG_def split: if_splits)

lemma SERVICE_CONFIG_distinct: "distinct (map fst SERVICE_CONFIG)"
  by (simp add: SERVICE_CONFIG_def)

lemma SERVICE_CONFIG_keys_upper:
  "(key, cfg) \<in> set SERVICE_CONFIG \<Longrightarrow> toUpperCase key = key"
  by (auto simp: SERVICE_CONFIG_def toUpperCase_keys)

lemma generateServiceUrl_matched:
  assumes "truthy_prim tenant" and "map_of SERVICE_CONFIG (toUpperCase s) = Some cfg"
  shows "generateServiceUrl (JStr s) tenant domain hostname =
           (Inr (JStr (if format cfg = ''tenant-prefix''
                       then ''https://'' @ ToString tenant @ ''-'' @ name cfg @ ''.''
                            @ ToString (if truthy_prim domain then domain
                                        else JStr (extractDomainFromHostname (Prim (JStr hostname))))
                            @ path cfg
                       else ''https://'' @ ToString tenant @ ''.''
                            @ ToString (if truthy_prim domain then domain
                                        else JStr (extractDomainFromHostname (Prim (JStr hostname))))
                            @ path cfg)), [])"
proof -
  from SERVICE_CONFIG_formats [OF assms(2)]
  have ne: "toUpperCase s \<noteq> []"
    and f: "format cfg = ''tenant-prefix'' \<or> format cfg = ''tenant-subdomain''" by auto
  from ne have "s \<noteq> []" by (simp add: toUpperCase_Nil_iff)
  with assms f show ?thesis
    by (auto simp: generateServiceUrl_def SERVICE_CONFIG_get_upper Let_def)
qed


lemma generateServiceUrl_falsy:
  "\<not> truthy_prim tenant \<or> \<not> truthy_prim serviceName \<Longrightarrow>
     generateServiceUrl serviceName tenant domain hostname = (Inr JNull, [])"
  by (auto simp: generateServiceUrl_def)

lemma generateServiceUrl_throws:
  assumes "truthy_prim tenant" and "truthy_prim serviceName" and "\<And>s. serviceName \<noteq> JStr s"
  shows "generateServiceUrl serviceName tenant domain hostname = (Inl TypeError, [])"
  using assms by (cases serviceName) (auto simp: generateServiceUrl_def)

lemma matched_lookup:
  assumes "(key, cfg) \<in> set SERVICE_CONFIG" and "toUpperCase s = toUpperCase key"
  shows "map_of SERVICE_CONFIG (toUpperCase s) = Some cfg"
  using assms SERVICE_CONFIG_keys_upper [OF assms(1)] SERVICE_CONFIG_distinct
  by simp


text \<open>
  Claim C1. For a non-empty tenant string, a non-empty domain string and a service
  identifier that matches a key of the service table up to letter case,
  \<open>generateServiceUrl\<close> returns the URL of the shape the matched descriptor's format
  selects, and that format is one of the two known ones. The two examples of the
  specification are included.
\<close>

theorem generateServiceUrl_shapes:
  assumes "tenant \<noteq> []" and "domain \<noteq> []"
    and "(key, cfg) \<in> set SERVICE_CONFIG" and "toUpperCase serviceId = toUpperCase key"
  shows "(format cfg = ''tenant-prefix'' \<or> format cfg = ''tenant-subdomain'')
     \<and> (format cfg = ''tenant-prefix'' \<longrightarrow>
          generateServiceUrl (JStr serviceId) (JStr tenant) (JStr domain) hostname =
            (Inr (JStr (''https://'' @ tenant @ ''-'' @ name cfg @ ''.'' @ domain @ path cfg)), []))
     \<and> (format cfg = ''tenant-subdomain'' \<longrightarrow>
          generateServiceUrl (JStr serviceId) (JStr tenant) (JStr domain) hostname =
            (Inr (JStr (''https://'' @ tenant @ ''.'' @ domain @ path cfg)), []))
     \<and> generateServiceUrl (JStr ''MLFLOW'') (JStr ''ramsay'') (JStr ''cloud-tmp.physicsx.ai'')
          hostname = (Inr (JStr ''https://ramsay-mlflow.cloud-tmp.physicsx.ai/''), [])
     \<and> generateServiceUrl (JStr ''optimizer'') (JStr ''demo-dev'')
          (JStr ''cloud-tmp.physicsx.ai'') hostname
          = (Inr (JStr ''https://demo-dev.cloud-tmp.physicsx.ai/platform-app/app/optimizer''), [])"
proof -
  have look: "map_of SERVICE_CONFIG (toUpperCase serviceId) = Some cfg"
    using assms(3,4) by (rule matched_lookup)
  have fmt: "format cfg = ''tenant-prefix'' \<or> format cfg = ''tenant-subdomain''"
    using SERVICE_CONFIG_formats [OF look] by simp
  have t: "truthy_prim (JStr tenant)" using assms(1) by simp
  have url: "generateServiceUrl (JStr serviceId) (JStr tenant) (JStr domain) hostname =
      (Inr (JStr (if format cfg = ''tenant-prefix''
                  then ''https://'' @ tenant @ ''-'' @ name cfg @ ''.'' @ domain @ path cfg
                  else ''https://'' @ tenant @ ''.'' @ domain @ path cfg)), [])"
    using generateServiceUrl_matched [OF t look, of "JStr domain" hostname] assms(2) by simp
  have u1: "toUpperCase ''MLFLOW'' = ''MLFLOW''" and u2: "toUpperCase ''optimizer'' = ''OPTIMIZER''"
    by code_simp+
  have l1: "map_of SERVICE_CONFIG (toUpperCase ''MLFLOW'') =
              Some \<lparr>name = ''mlflow'', format = ''tenant-prefix'', path = ''/''\<rparr>"
    unfolding u1 by (simp add: SERVICE_CONFIG_def)
  have l2: "map_of SERVICE_CONFIG (toUpperCase ''optimizer'') =
              Some \<lparr>name = ''optimizer'', format = ''tenant-subdomain'',
                    path = ''/platform-app/app/optimizer''\<rparr>"
    unfolding u2 by (simp add: SERVICE_CONFIG_def)
  have ex1: "generateServiceUrl (JStr ''MLFLOW'') (JStr ''ramsay'') (JStr ''cloud-tmp.physicsx.ai'')
          hostname = (Inr (JStr ''https://ramsay-mlflow.cloud-tmp.physicsx.ai/''), [])"
    by (subst generateServiceUrl_matched [OF _ l1]) simp_all
  have ex2: "generateServiceUrl (JStr ''optimizer'') (JStr ''demo-dev'')
          (JStr ''cloud-tmp.physicsx.ai'') hostname
          = (Inr (JStr ''https://demo-dev.cloud-tmp.physicsx.ai/platform-app/app/optimizer''), [])"
    by (subst generateServiceUrl_matched [OF _ l2]) simp_all
  show ?thesis
  proof (intro conjI impI)
    show "format cfg = ''tenant-prefix'' \<or> format cfg = ''tenant-subdomain''" by (rule fmt)
  next
    assume "format cfg = ''tenant-prefix''"
    with url show "generateServiceUrl (JStr serviceId) (JStr tenant) (JStr domain) hostname =
            (Inr (JStr (''https://'' @ tenant @ ''-'' @ name cfg @ ''.'' @ domain @ path cfg)), [])"
      by simp
  next
    assume "format cfg = ''tenant-subdomain''"
    with url show "generateServiceUrl (JStr serviceId) (JStr tenant) (JStr domain) hostname =
            (Inr (JStr (''https://'' @ tenant @ ''.'' @ domain @ path cfg)), [])"
      by simp
  next
    show "generateServiceUrl (JStr ''MLFLOW'') (JStr ''ramsay'') (JStr ''cloud-tmp.physicsx.ai'')
          hostname = (Inr (JStr ''https://ramsay-mlflow.cloud-tmp.physicsx.ai/''), [])"
      by (rule ex1)
  next
    show "generateServiceUrl (JStr ''optimizer'') (JStr ''demo-dev'')
          (JStr ''cloud-tmp.physicsx.ai'') hostname
          = (Inr (JStr ''https://demo-dev.cloud-tmp.physicsx.ai/platform-app/app/optimizer''), [])"
      by (rule ex2)
  qed
qed

theorem generateServiceUrl_shapes_witness:
  "generateServiceUrl (JStr ''Vault'') (JStr ''acme'') (JStr ''example.org'') ''localhost''
     = (Inr (JStr ''https://acme.example.org/vault-filebrowser/files/''), [])
   \<and> generateServiceUrl (JStr ''mlFlow'') (JStr ''acme'') (JStr ''example.org'') ''localhost''
     = (Inr (JStr ''https://acme-mlflow.example.org/''), [])"
proof -
  have m1: "(''VAULT'', \<lparr>name = ''vault'', format = ''tenant-subdomain'',
                          path = ''/vault-filebrowser/files/''\<rparr>) \<in> set SERVICE_CONFIG"
    by (simp add: SERVICE_CONFIG_def)
  have u1: "toUpperCase ''Vault'' = toUpperCase ''VAULT''" by code_simp
  have m2: "(''MLFLOW'', \<lparr>name = ''mlflow'', format = ''tenant-prefix'', path = ''/''\<rparr>)
              \<in> set SERVICE_CONFIG"
    by (simp add: SERVICE_CONFIG_def)
  have u2: "toUpperCase ''mlFlow'' = toUpperCase ''MLFLOW''" by code_simp
  have n: "''acme'' \<noteq> []" "''example.org'' \<noteq> []" by simp_all
  from generateServiceUrl_shapes [OF n m1 u1, of "''localhost''"]
       generateServiceUrl_shapes [OF n m2 u2, of "''localhost''"]
  show ?thesis by simp
qed




text \<open>
  Outside the documented parameter type: a truthy identifier that is not a string has
  no \<^verbatim>\<open>toUpperCase\<close> method, so with a truthy tenant the call throws a \<^verbatim>\<open>TypeError\<close>
  (lemma \<open>generateServiceUrl_throws\<close>); with a falsy tenant it returns \<^verbatim>\<open>null\<close> first.
\<close>

lemma generateServiceUrl_on_number:
  "generateServiceUrl (JNum 42) (JStr ''ramsay'') JNull ''ramsay.cloud-tmp.physicsx.ai''
     = (Inl TypeError, [])
   \<and> generateServiceUrl (JNum 42) (JStr []) JNull ''ramsay.cloud-tmp.physicsx.ai''
     = (Inr JNull, [])"
  by (simp add: generateServiceUrl_def)

text \<open>
  Claim C10, as amended. The empty string as the domain argument behaves as the omitted
  argument (the default \<^verbatim>\<open>null\<close>), in \<open>generateServiceUrl\<close> and in
  \<open>processExternalLink\<close>: the argument is never used, and the domain in the result is
  the one \<open>extractDomainFromHostname\<close> derives from the current hostname. That derived
  domain is itself the empty string exactly when the hostname ends right after its
  first dot.
\<close>

theorem empty_domain_is_omitted:
  "generateServiceUrl serviceId tenant (JStr []) hostname
     = generateServiceUrl serviceId tenant JNull hostname
   \<and> processExternalLink link tenant (JStr []) hostname
     = processExternalLink link tenant JNull hostname
   \<and> generateServiceUrl serviceId tenant (JStr []) hostname
     = generateServiceUrl serviceId tenant
         (JStr (extractDomainFromHostname (Prim (JStr hostname)))) hostname
   \<and> processExternalLink link tenant (JStr []) hostname
     = processExternalLink link tenant (JStr (getCurrentDomain hostname)) hostname
   \<and> (truthy_prim tenant \<and> (key, cfg) \<in> set SERVICE_CONFIG
        \<and> toUpperCase sid = toUpperCase key \<longrightarrow>
        generateServiceUrl (JStr sid) tenant (JStr []) hostname =
          (Inr (JStr (if format cfg = ''tenant-prefix''
                      then ''https://'' @ ToString tenant @ ''-'' @ name cfg @ ''.''
                           @ extractDomainFromHostname (Prim (JStr hostname)) @ path cfg
                      else ''https://'' @ ToString tenant @ ''.''
                           @ extractDomainFromHostname (Prim (JStr hostname)) @ path cfg)),
           []))
   \<and> (l \<noteq> [] \<and> truthy_prim tenant \<longrightarrow>
        processExternalLink (Prim (JStr l)) tenant (JStr []) hostname =
          Inr (Prim (JStr (replace_global
                 (replace_global l ''${TENANT}'' (ToString tenant)) ''${DOMAIN}''
                 (extractDomainFromHostname (Prim (JStr hostname)))))))
   \<and> (extractDomainFromHostname (Prim (JStr hostname)) = []
        \<longleftrightarrow> (\<exists>pre. hostname = pre @ ''.'' \<and> CHR ''.'' \<notin> set pre))"
proof -
  have eqs: "generateServiceUrl serviceId tenant (JStr []) hostname
     = generateServiceUrl serviceId tenant JNull hostname
   \<and> processExternalLink link tenant (JStr []) hostname
     = processExternalLink link tenant JNull hostname
   \<and> generateServiceUrl serviceId tenant (JStr []) hostname
     = generateServiceUrl serviceId tenant
         (JStr (extractDomainFromHostname (Prim (JStr hostname)))) hostname
   \<and> processExternalLink link tenant (JStr []) hostname
     = processExternalLink link tenant (JStr (getCurrentDomain hostname)) hostname"
    by (simp add: generateServiceUrl_def processExternalLink_def)
  have url: "generateServiceUrl (JStr sid) tenant (JStr []) hostname =
          (Inr (JStr (if format cfg = ''tenant-prefix''
                      then ''https://'' @ ToString tenant @ ''-'' @ name cfg @ ''.''
                           @ extractDomainFromHostname (Prim (JStr hostname)) @ path cfg
                      else ''https://'' @ ToString tenant @ ''.''
                           @ extractDomainFromHostname (Prim (JStr hostname)) @ path cfg)),
           [])"
    if "truthy_prim tenant" "(key, cfg) \<in> set SERVICE_CONFIG" "toUpperCase sid = toUpperCase key"
  proof -
    have "map_of SERVICE_CONFIG (toUpperCase sid) = Some cfg"
      using that(2,3) by (rule matched_lookup)
    from generateServiceUrl_matched [OF that(1) this, of "JStr []" hostname]
    show ?thesis by simp
  qed
  have lnk: "processExternalLink (Prim (JStr l)) tenant (JStr []) hostname =
          Inr (Prim (JStr (replace_global
                 (replace_global l ''${TENANT}'' (ToString tenant)) ''${DOMAIN}''
                 (extractDomainFromHostname (Prim (JStr hostname))))))"
    if "l \<noteq> []" "truthy_prim tenant"
    using that by (simp add: processExternalLink_def getCurrentDomain_def)
  have emp: "extractDomainFromHostname (Prim (JStr hostname)) = []
        \<longleftrightarrow> (\<exists>pre. hostname = pre @ ''.'' \<and> CHR ''.'' \<notin> set pre)"
  proof
    assume e: "extractDomainFromHostname (Prim (JStr hostname)) = []"
    show "\<exists>pre. hostname = pre @ ''.'' \<and> CHR ''.'' \<notin> set pre"
    proof (cases "CHR ''.'' \<in> set hostname")
      case True
      then obtain pre post where s: "hostname = pre @ CHR ''.'' # post"
        and n: "CHR ''.'' \<notin> set pre"
        by (auto dest: split_list_first)
      then have "extractDomainFromHostname (Prim (JStr hostname)) = post"
        by (simp add: extractDomain_string takeWhile_append)
      with e s n show ?thesis by simp
    next
      case False
      then have "extractDomainFromHostname (Prim (JStr hostname)) = DEFAULT_DOMAIN"
        by (simp add: extractDomain_string)
      with e show ?thesis by (simp add: DEFAULT_DOMAIN_def)
    qed
  next
    assume "\<exists>pre. hostname = pre @ ''.'' \<and> CHR ''.'' \<notin> set pre"
    then obtain pre where "hostname = pre @ ''.''" "CHR ''.'' \<notin> set pre" by blast
    then show "extractDomainFromHostname (Prim (JStr hostname)) = []"
      by (simp add: extractDomain_string takeWhile_append)
  qed
  from eqs url lnk emp show ?thesis by blast
qed

theorem empty_domain_is_omitted_witness:
  "generateServiceUrl (JStr ''vault'') (JStr ''acme'') (JStr []) ''acme.example.org''
     = (Inr (JStr ''https://acme.example.org/vault-filebrowser/files/''), [])
   \<and> processExternalLink (Prim (JStr ''https://${TENANT}.${DOMAIN}/x'')) (JStr ''acme'') (JStr [])
        ''acme.example.org''
     = Inr (Prim (JStr ''https://acme.example.org/x''))
   \<and> extractDomainFromHostname (Prim (JStr ''acme.example.org'')) \<noteq> []"
proof -
  note inst = empty_domain_is_omitted [where serviceId = "JStr ''vault''"
      and tenant = "JStr ''acme''" and hostname = "''acme.example.org''"
      and link = "Prim (JStr ''https://${TENANT}.${DOMAIN}/x'')"
      and sid = "''vault''" and key = "''VAULT''"
      and cfg = "\<lparr>name = ''vault'', format = ''tenant-subdomain'',
                   path = ''/vault-filebrowser/files/''\<rparr>"
      and l = "''https://${TENANT}.${DOMAIN}/x''"]
  have d: "extractDomainFromHostname (Prim (JStr ''acme.example.org'')) = ''example.org''"
    by code_simp
  have t: "truthy_prim (JStr ''acme'')" by simp
  have m: "(''VAULT'', \<lparr>name = ''vault'', format = ''tenant-subdomain'',
                         path = ''/vault-filebrowser/files/''\<rparr>) \<in> set SERVICE_CONFIG"
    by (simp add: SERVICE_CONFIG_def)
  have u: "toUpperCase ''vault'' = toUpperCase ''VAULT''" by code_simp
  have r: "replace_global (replace_global ''https://${TENANT}.${DOMAIN}/x'' ''${TENANT}'' ''acme'')
             ''${DOMAIN}'' ''example.org'' = ''https://acme.example.org/x''"
    by code_simp
  note c5 = inst [THEN conjunct2, THEN conjunct2, THEN conjunct2, THEN conjunct2,
      THEN conjunct1, THEN mp, OF conjI [OF t conjI [OF m u]]]
  note c6 = inst [THEN conjunct2, THEN conjunct2, THEN conjunct2, THEN conjunct2,
      THEN conjunct2, THEN conjunct1, THEN mp]
  have a:
    "generateServiceUrl (JStr ''vault'') (JStr ''acme'') (JStr []) ''acme.example.org''
     = (Inr (JStr ''https://acme.example.org/vault-filebrowser/files/''), [])"
    using c5 unfolding d by simp
  have ne: "''https://${TENANT}.${DOMAIN}/x'' \<noteq> [] \<and> truthy_prim (JStr ''acme'')" by simp
  have b:
    "processExternalLink (Prim (JStr ''https://${TENANT}.${DOMAIN}/x'')) (JStr ''acme'') (JStr [])
        ''acme.example.org''
     = Inr (Prim (JStr ''https://acme.example.org/x''))"
    using c6 [OF ne] r unfolding d by simp
  from a b d show ?thesis by simp
qed

text \<open>
  Claim C10 as stated also says that the empty string is never the domain of the
  produced URL. For the hostname \<^verbatim>\<open>acme.\<close>, which ends right after its first dot, the
  derived domain is the empty string, and it is used.
\<close>

theorem empty_domain_used_after_trailing_dot:
  "extractDomainFromHostname (Prim (JStr ''acme.'')) = []
   \<and> generateServiceUrl (JStr ''vault'') (JStr ''acme'') (JStr []) ''acme.''
       = (Inr (JStr ''https://acme./vault-filebrowser/files/''), [])
   \<and> generateServiceUrl (JStr ''vault'') (JStr ''acme'') JNull ''acme.''
       = (Inr (JStr ''https://acme./vault-filebrowser/files/''), [])
   \<and> processExternalLink (Prim (JStr ''https://${TENANT}.${DOMAIN}/x'')) (JStr ''acme'') (JStr [])
        ''acme.''
       = Inr (Prim (JStr ''https://acme./x''))"
  by code_simp

lemma generateServiceUrl_key:
  assumes "(key, cfg) \<in> set SERVICE_CONFIG"
  shows "generateServiceUrl (JStr key) tenant domain hostname =
           (if truthy_prim tenant
            then (Inr (JStr (if format cfg = ''tenant-prefix''
                       then ''https://'' @ ToString tenant @ ''-'' @ name cfg @ ''.''
                            @ ToString (if truthy_prim domain then domain
                                        else JStr (extractDomainFromHostname (Prim (JStr hostname))))
                            @ path cfg
                       else ''https://'' @ ToString tenant @ ''.''
                            @ ToString (if truthy_prim domain then domain
                                        else JStr (extractDomainFromHostname (Prim (JStr hostname))))
                            @ path cfg)), [])
            else (Inr JNull, []))"
proof (cases "truthy_prim tenant")
  case True
  have "map_of SERVICE_CONFIG (toUpperCase key) = Some cfg"
    using assms refl by (rule matched_lookup)
  from generateServiceUrl_matched [OF True this] True show ?thesis by simp
next
  case False
  then show ?thesis by (simp add: generateServiceUrl_falsy)
qed

lemma SERVICE_CONFIG_members:
  "(''MLFLOW'', \<lparr>name = ''mlflow'', format = ''tenant-prefix'', path = ''/''\<rparr>)
     \<in> set SERVICE_CONFIG"
  "(''OPTIMIZER'', \<lparr>name = ''optimizer'', format = ''tenant-subdomain'',
                     path = ''/platform-app/app/optimizer''\<rparr>) \<in> set SERVICE_CONFIG"
  "(''VAULT'', \<lparr>name = ''vault'', format = ''tenant-subdomain'',
                 path = ''/vault-filebrowser/files/''\<rparr>) \<in> set SERVICE_CONFIG"
  "(''SIM_WORKBENCH'', \<lparr>name = ''sim-workbench'', format = ''tenant-subdomain'',
                         path = ''/simlab-react-ui/projects''\<rparr>) \<in> set SERVICE_CONFIG"
  "(''PLATFORM_DOCS'', \<lparr>name = ''platform-docs'', format = ''tenant-subdomain'',
                         path = ''/documentation/''\<rparr>) \<in> set SERVICE_CONFIG"
  "(''AI_WORKBENCH_DOCS'', \<lparr>name = ''ai-workbench'', format = ''tenant-subdomain'',
        path = ''/platform-documentation/ai_workbench/index.html''\<rparr>) \<in> set SERVICE_CONFIG"
  by (simp_all add: SERVICE_CONFIG_def)

lemmas generateServiceUrl_keys =
  SERVICE_CONFIG_members [THEN generateServiceUrl_key, simplified]

lemma generateAllServiceUrls_truthy:
  assumes "truthy_prim tenant"
  shows "generateAllServiceUrls tenant domain hostname =
    (let d = ToString (if truthy_prim domain then domain
                       else JStr (extractDomainFromHostname (Prim (JStr hostname))));
         t = ''https://'' @ ToString tenant in
     (Inr [(''mlflow'', JStr (t @ ''-mlflow.'' @ d @ ''/'')),
           (''optimizer'', JStr (t @ ''.'' @ d @ ''/platform-app/app/optimizer'')),
           (''vault'', JStr (t @ ''.'' @ d @ ''/vault-filebrowser/files/'')),
           (''sim-workbench'', JStr (t @ ''.'' @ d @ ''/simlab-react-ui/projects'')),
           (''platform-docs'', JStr (t @ ''.'' @ d @ ''/documentation/'')),
           (''ai-workbench'',
              JStr (t @ ''.'' @ d @ ''/platform-documentation/ai_workbench/index.html''))],
      []))"
  using assms
  by (simp add: generateAllServiceUrls_def SERVICE_CONFIG_def generateServiceUrl_keys Let_def)

lemma generateAllServiceUrls_falsy:
  assumes "\<not> truthy_prim tenant"
  shows "generateAllServiceUrls tenant domain hostname =
     (Inr [(''mlflow'', JNull), (''optimizer'', JNull), (''vault'', JNull),
           (''sim-workbench'', JNull), (''platform-docs'', JNull), (''ai-workbench'', JNull)],
      [])"
  using assms
  by (simp add: generateAllServiceUrls_def SERVICE_CONFIG_def generateServiceUrl_keys)

text \<open>
  Claim C6. \<open>generateAllServiceUrls\<close> returns a mapping with exactly six entries, one
  per entry of the service table in table order, keyed by the descriptor's \<open>name\<close>
  field; the value under each name is what \<open>generateServiceUrl\<close> returns for that
  table key, whether or not it is \<^verbatim>\<open>null\<close>, so no result keeps another from being
  generated; and for a truthy tenant, a non-empty tenant string in particular, no
  value is \<^verbatim>\<open>null\<close> and nothing is thrown or warned.
\<close>

theorem generateAllServiceUrls_entries:
  "\<exists>urls w. generateAllServiceUrls tenant domain hostname = (Inr urls, w)
     \<and> length urls = 6
     \<and> map fst urls = map (\<lambda>(key, cfg). name cfg) SERVICE_CONFIG
     \<and> map fst urls = [''mlflow'', ''optimizer'', ''vault'', ''sim-workbench'',
                        ''platform-docs'', ''ai-workbench'']
     \<and> distinct (map fst urls)
     \<and> list_all2 (\<lambda>(k, v) (key, cfg).
            k = name cfg
            \<and> fst (generateServiceUrl (JStr key) tenant domain hostname) = Inr v)
          urls SERVICE_CONFIG
     \<and> (truthy_prim tenant \<longrightarrow> list_all (\<lambda>(k, v). v \<noteq> JNull) urls \<and> w = [])"
proof (cases "truthy_prim tenant")
  case True
  show ?thesis
    unfolding generateAllServiceUrls_truthy [OF True] Let_def
    using True
    by (simp add: SERVICE_CONFIG_def generateServiceUrl_keys)
next
  case False
  show ?thesis
    unfolding generateAllServiceUrls_falsy [OF False]
    using False
    by (simp add: SERVICE_CONFIG_def generateServiceUrl_keys)
qed

theorem generateAllServiceUrls_entries_witness:
  "\<exists>urls w. generateAllServiceUrls (JStr ''ramsay'') (JStr ''cloud-tmp.physicsx.ai'')
               ''ramsay-kubeflow.cloud-tmp.physicsx.ai'' = (Inr urls, w)
     \<and> length urls = 6
     \<and> map fst urls = [''mlflow'', ''optimizer'', ''vault'', ''sim-workbench'',
                        ''platform-docs'', ''ai-workbench'']
     \<and> list_all (\<lambda>(k, v). v \<noteq> JNull) urls \<and> w = []"
proof -
  have t: "truthy_prim (JStr ''ramsay'')" by simp
  from generateAllServiceUrls_entries [of "JStr ''ramsay''" "JStr ''cloud-tmp.physicsx.ai''"
         "''ramsay-kubeflow.cloud-tmp.physicsx.ai''"]
  obtain urls w where
    "generateAllServiceUrls (JStr ''ramsay'') (JStr ''cloud-tmp.physicsx.ai'')
       ''ramsay-kubeflow.cloud-tmp.physicsx.ai'' = (Inr urls, w)"
    "length urls = 6"
    "map fst urls = [''mlflow'', ''optimizer'', ''vault'', ''sim-workbench'',
                     ''platform-docs'', ''ai-workbench'']"
    "truthy_prim (JStr ''ramsay'') \<longrightarrow> list_all (\<lambda>(k, v). v \<noteq> JNull) urls \<and> w = []"
    by (elim exE conjE)
  with t show ?thesis by (intro exI conjI) auto
qed

section \<open>Placeholder substitution in links\<close>

lemma GetSubstitution_no_dollar:
  "CHR ''$'' \<notin> set r \<Longrightarrow> GetSubstitution m s p r = r"
  by (induction m s p r rule: GetSubstitution.induct) auto

lemma replace_matches_literal:
  "CHR ''$'' \<notin> set r \<Longrightarrow> replace_matches pat r str pos rest = substitute_all pat r rest"
  by (induction pat r str pos rest rule: replace_matches.induct)
     (auto simp: GetSubstitution_no_dollar)

lemma replace_matches_no_match:
  "\<not> sublist pat rest \<Longrightarrow> replace_matches pat r str pos rest = rest"
proof (induction pat r str pos rest rule: replace_matches.induct)
  case (1 pat replacement str position)
  show ?case by simp
next
  case (2 pat replacement str position c cs)
  from "2.prems" have np: "\<not> prefix pat (c # cs)" and ns: "\<not> sublist pat cs"
    by (auto simp: sublist_Cons_right)
  from "2.IH"(2) np ns show ?case by simp
qed

lemma replace_global_no_match:
  "\<not> sublist pat str \<Longrightarrow> replace_global str pat r = str"
  by (simp add: replace_global_def replace_matches_no_match)

lemma replace_global_literal:
  "CHR ''$'' \<notin> set r \<Longrightarrow> replace_global str pat r = substitute_all pat r str"
  by (simp add: replace_global_def replace_matches_literal)

lemma processExternalLink_passthrough:
  "\<not> truthy link \<or> \<not> truthy_prim tenant \<Longrightarrow>
     processExternalLink link tenant domain hostname = Inr link"
  by (auto simp: processExternalLink_def)

lemma processExternalLink_string:
  assumes "l \<noteq> []" and "truthy_prim tenant"
  shows "processExternalLink (Prim (JStr l)) tenant domain hostname =
           Inr (Prim (JStr (replace_global
                  (replace_global l ''${TENANT}'' (ToString tenant)) ''${DOMAIN}''
                  (ToString (if truthy_prim domain then domain
                             else JStr (getCurrentDomain hostname))))))"
  using assms by (simp add: processExternalLink_def Let_def)

lemma processExternalLink_literal:
  assumes "l \<noteq> []" and "truthy_prim tenant"
    and "CHR ''$'' \<notin> set (ToString tenant)"
    and "CHR ''$'' \<notin> set (ToString (if truthy_prim domain then domain
                                        else JStr (getCurrentDomain hostname)))"
  shows "processExternalLink (Prim (JStr l)) tenant domain hostname =
           Inr (Prim (JStr (substitute_all ''${DOMAIN}''
                  (ToString (if truthy_prim domain then domain
                             else JStr (getCurrentDomain hostname)))
                  (substitute_all ''${TENANT}'' (ToString tenant) l))))"
  unfolding processExternalLink_string [OF assms(1,2)]
    replace_global_literal [OF assms(3)] replace_global_literal [OF assms(4)]
  by (rule refl)

lemma processExternalLink_example:
  "processExternalLink (Prim (JStr ''https://${TENANT}-mlflow.${DOMAIN}/'')) (JStr ''ramsay'')
     (JStr ''cloud-tmp.physicsx.ai'') hostname
   = Inr (Prim (JStr ''https://ramsay-mlflow.cloud-tmp.physicsx.ai/''))"
  by (simp add: processExternalLink_def replace_global_def)

text \<open>
  Claim C9. A link string that contains neither \<^verbatim>\<open>${TENANT}\<close> nor \<^verbatim>\<open>${DOMAIN}\<close> is returned
  unchanged by \<open>processExternalLink\<close>, whatever the tenant, the domain and the current
  hostname are; hence an output of \<open>processExternalLink\<close> that holds no placeholder is
  a fixed point of it.
\<close>

theorem processExternalLink_no_placeholder:
  assumes "\<not> sublist ''${TENANT}'' link" and "\<not> sublist ''${DOMAIN}'' link"
  shows "processExternalLink (Prim (JStr link)) tenant domain hostname = Inr (Prim (JStr link))
     \<and> (processExternalLink l t d h = Inr (Prim (JStr link)) \<longrightarrow>
          processExternalLink (Prim (JStr link)) t d h = processExternalLink l t d h)"
proof -
  have same: "processExternalLink (Prim (JStr link)) t' d' h' = Inr (Prim (JStr link))"
    for t' d' h'
  proof (cases "link \<noteq> [] \<and> truthy_prim t'")
    case True
    then have l: "link \<noteq> []" and tt: "truthy_prim t'" by simp_all
    have "processExternalLink (Prim (JStr link)) t' d' h' =
           Inr (Prim (JStr (replace_global
                  (replace_global link ''${TENANT}'' (ToString t')) ''${DOMAIN}''
                  (ToString (if truthy_prim d' then d' else JStr (getCurrentDomain h'))))))"
      using l tt by (rule processExternalLink_string)
    also have "replace_global link ''${TENANT}'' (ToString t') = link"
      using assms(1) by (rule replace_global_no_match)
    also have "replace_global link ''${DOMAIN}''
                 (ToString (if truthy_prim d' then d' else JStr (getCurrentDomain h'))) = link"
      using assms(2) by (rule replace_global_no_match)
    finally show ?thesis .
  next
    case False
    then have "\<not> truthy (Prim (JStr link)) \<or> \<not> truthy_prim t'" by simp
    then show ?thesis by (rule processExternalLink_passthrough)
  qed
  from same [of tenant domain hostname] same [of t d h] show ?thesis by simp
qed

theorem processExternalLink_no_placeholder_witness:
  "processExternalLink (Prim (JStr ''https://example.org/${TENAN}/$DOMAIN'')) (JStr ''acme'')
     JNull ''acme.example.org''
   = Inr (Prim (JStr ''https://example.org/${TENAN}/$DOMAIN''))"
proof -
  have a: "\<not> sublist ''${TENANT}'' ''https://example.org/${TENAN}/$DOMAIN''" by code_simp
  have b: "\<not> sublist ''${DOMAIN}'' ''https://example.org/${TENAN}/$DOMAIN''" by code_simp
  from processExternalLink_no_placeholder [OF a b, of "JStr ''acme''" JNull "''acme.example.org''"]
  show ?thesis by (rule conjunct1)
qed

text \<open>
  Claim C7 says that, for a truthy link and tenant, every \<^verbatim>\<open>${TENANT}\<close> is replaced
  literally by the tenant and then every \<^verbatim>\<open>${DOMAIN}\<close> literally by the domain.
  \<^verbatim>\<open>String.prototype.replace\<close> reads its replacement argument as a pattern, so a tenant
  that contains \<^verbatim>\<open>$$\<close> is not inserted character for character: for the link
  \<^verbatim>\<open>${TENANT}\<close> and the tenant \<^verbatim>\<open>a$$b\<close> the code returns \<^verbatim>\<open>a$b\<close>, the literal substitution
  \<^verbatim>\<open>a$$b\<close>.
\<close>

theorem processExternalLink_dollar_pattern:
  "processExternalLink (Prim (JStr ''${TENANT}'')) (JStr ''a$$b'') (JStr ''d'') ''a.d''
     = Inr (Prim (JStr ''a$b''))
   \<and> substitute_all ''${DOMAIN}'' ''d'' (substitute_all ''${TENANT}'' ''a$$b'' ''${TENANT}'')
     = ''a$$b''"
  by (simp add: processExternalLink_def replace_global_def)

theorem processExternalLink_dollar_pattern_witness:
  "processExternalLink (Prim (JStr ''${TENANT}'')) (JStr ''a$$b'') (JStr ''d'') ''a.d''
     \<noteq> Inr (Prim (JStr (substitute_all ''${DOMAIN}'' ''d''
                           (substitute_all ''${TENANT}'' ''a$$b'' ''${TENANT}''))))"
  using processExternalLink_dollar_pattern by simp

section \<open>Lists of link records\<close>

lemma heap_get_append:
  "heap_get h b = Some obj \<Longrightarrow> heap_get (h @ ext) b = Some obj"
  by (auto simp: heap_get_def nth_append split: if_splits)

lemma heap_get_new: "heap_get (h @ obj # ext) (length h) = Some obj"
  by (simp add: heap_get_def)

lemma heap_get_new_at:
  "i < length news \<Longrightarrow> heap_get (h @ news @ ext) (length h + i) = Some (news ! i)"
  by (simp add: heap_get_def nth_append)

lemma processExternalLink_of_string:
  "\<exists>l'. processExternalLink (Prim (JStr s)) tenant domain hostname = Inr l'"
  by (simp add: processExternalLink_def Let_def)

lemma process_element_record:
  assumes "heap_get h b = Some (JObject props)"
    and "props ''link'' = Some l"
    and "processExternalLink l tenant domain hostname = Inr l'"
  shows "process_element tenant domain hostname (Ref b) h =
           Inr (Ref (length h),
                h @ [JObject ((props(''__proto__'' := None))(''link'' \<mapsto> l'))])"
proof -
  let ?copy = "JObject (props(''__proto__'' := None))"
  have g: "heap_get (h @ [?copy]) b = Some (JObject props)"
    using assms(1) by (rule heap_get_append)
  have n: "heap_get (h @ [?copy]) (length h) = Some ?copy"
    by (rule heap_get_new)
  show ?thesis
    using assms g n
    by (simp add: process_element_def alloc_def Object_assign_empty_def own_enumerable_def
        get_link_def set_property_def)
qed

lemma upt_shift: "[n ..< n + Suc m] = n # [Suc n ..< Suc n + m]"
  by (subst upt_rec) simp

lemma array_map_records:
  assumes "\<forall>v \<in> set links. \<exists>b props s. v = Ref b \<and> heap_get h b = Some (JObject props)
             \<and> props ''link'' = Some (Prim (JStr s))"
  shows "\<exists>news. array_map (process_element tenant domain hostname) links h =
             Inr (map Ref [length h ..< length h + length links], h @ news)
           \<and> length news = length links
           \<and> (\<forall>i b props l. i < length links \<and> links ! i = Ref b
                 \<and> heap_get h b = Some (JObject props) \<and> props ''link'' = Some l
                 \<longrightarrow> (\<exists>l'. processExternalLink l tenant domain hostname = Inr l'
                          \<and> news ! i = JObject ((props(''__proto__'' := None))(''link'' \<mapsto> l'))))"
  using assms
proof (induction links arbitrary: h)
  case Nil
  show ?case by simp
next
  case (Cons v vs)
  from Cons.prems obtain b props s where v: "v = Ref b"
    and hb: "heap_get h b = Some (JObject props)"
    and ls: "props ''link'' = Some (Prim (JStr s))"
    by auto
  obtain l' where l': "processExternalLink (Prim (JStr s)) tenant domain hostname = Inr l'"
    using processExternalLink_of_string by blast
  let ?o = "JObject ((props(''__proto__'' := None))(''link'' \<mapsto> l'))"
  have pe: "process_element tenant domain hostname v h = Inr (Ref (length h), h @ [?o])"
    unfolding v using hb ls l' by (rule process_element_record)
  have rest: "\<forall>v \<in> set vs. \<exists>b props s. v = Ref b
                \<and> heap_get (h @ [?o]) b = Some (JObject props)
                \<and> props ''link'' = Some (Prim (JStr s))"
    using Cons.prems by (fastforce intro: heap_get_append)
  from Cons.IH [OF rest] obtain news where
    am: "array_map (process_element tenant domain hostname) vs (h @ [?o]) =
           Inr (map Ref [length (h @ [?o]) ..< length (h @ [?o]) + length vs], (h @ [?o]) @ news)"
    and ln: "length news = length vs"
    and each: "\<And>i b props l. i < length vs \<Longrightarrow> vs ! i = Ref b
                 \<Longrightarrow> heap_get (h @ [?o]) b = Some (JObject props) \<Longrightarrow> props ''link'' = Some l
                 \<Longrightarrow> \<exists>l'. processExternalLink l tenant domain hostname = Inr l'
                          \<and> news ! i = JObject ((props(''__proto__'' := None))(''link'' \<mapsto> l'))"
    by blast
  have upt: "[length h ..< length h + length (v # vs)]
               = length h # [Suc (length h) ..< Suc (length h) + length vs]"
    using upt_shift [of "length h" "length vs"] by simp
  have res: "array_map (process_element tenant domain hostname) (v # vs) h =
             Inr (map Ref [length h ..< length h + length (v # vs)], h @ (?o # news))"
    unfolding upt using pe am by simp
  have len: "length (?o # news) = length (v # vs)" using ln by simp
  have all: "\<exists>l''. processExternalLink l tenant domain hostname = Inr l''
                 \<and> (?o # news) ! i = JObject ((props'(''__proto__'' := None))(''link'' \<mapsto> l''))"
    if "i < length (v # vs)" "(v # vs) ! i = Ref b'"
       "heap_get h b' = Some (JObject props')" "props' ''link'' = Some l"
    for i b' props' l
  proof (cases i)
    case 0
    with that v hb ls l' show ?thesis by auto
  next
    case (Suc j)
    with that have j: "j < length vs" "vs ! j = Ref b'" by simp_all
    have "heap_get (h @ [?o]) b' = Some (JObject props')"
      using that(3) by (rule heap_get_append)
    from each [OF j this that(4)] Suc show ?thesis by simp
  qed
  show ?case
  proof (intro exI conjI)
    show "array_map (process_element tenant domain hostname) (v # vs) h =
             Inr (map Ref [length h ..< length h + length (v # vs)], h @ (?o # news))"
      by (rule res)
    show "length (?o # news) = length (v # vs)" by (rule len)
    show "\<forall>i b props l. i < length (v # vs) \<and> (v # vs) ! i = Ref b
                 \<and> heap_get h b = Some (JObject props) \<and> props ''link'' = Some l
                 \<longrightarrow> (\<exists>l'. processExternalLink l tenant domain hostname = Inr l'
                          \<and> (?o # news) ! i = JObject ((props(''__proto__'' := None))(''link'' \<mapsto> l')))"
      using all by blast
  qed
qed

lemma processExternalLinks_passthrough:
  "\<not> isArray h externalLinks \<or> \<not> truthy_prim tenant \<Longrightarrow>
     processExternalLinks externalLinks tenant domain hostname h = Inr (externalLinks, h)"
  by (auto simp: processExternalLinks_def)

lemma processExternalLinks_array:
  assumes "heap_get h a = Some (JArray links)" and "truthy_prim tenant"
    and "array_map (process_element tenant domain hostname) links h = Inr (out, h1)"
  shows "processExternalLinks (Ref a) tenant domain hostname h =
           Inr (Ref (length h1), h1 @ [JArray out])"
  using assms by (simp add: processExternalLinks_def isArray_def alloc_def)

text \<open>
  What \<open>processExternalLinks\<close> does on link records. When the input is not an array or
  the tenant is falsy, it returns the input itself and leaves the heap as it is.
  Otherwise, for an array of link records (objects whose \<open>link\<close> field is a string) it
  returns a new array of the same length; its i-th element is a new object that holds
  the fields of the i-th input record other than \<^verbatim>\<open>__proto__\<close>, with \<open>link\<close> replaced
  by what \<open>processExternalLink\<close> returns for it and every other field as it was; it has
  no own \<^verbatim>\<open>__proto__\<close> field. All objects and arrays of the input heap are unchanged,
  and the addresses of the new array and of its elements are fresh and pairwise
  distinct, so nothing of the output is aliased to the input.
\<close>

lemma processExternalLinks_copy:
  "(\<not> isArray h externalLinks \<or> \<not> truthy_prim tenant \<longrightarrow>
       processExternalLinks externalLinks tenant domain hostname h = Inr (externalLinks, h))
   \<and> (heap_get h a = Some (JArray links) \<and> truthy_prim tenant
      \<and> (\<forall>v \<in> set links. \<exists>b props s. v = Ref b \<and> heap_get h b = Some (JObject props)
             \<and> props ''link'' = Some (Prim (JStr s)))
      \<longrightarrow> (\<exists>result h' out.
            processExternalLinks (Ref a) tenant domain hostname h = Inr (Ref result, h')
          \<and> take (length h) h' = h
          \<and> length h \<le> result
          \<and> heap_get h' result = Some (JArray out)
          \<and> length out = length links
          \<and> distinct out
          \<and> (\<forall>i < length links. \<exists>b props l b' props' l'.
                links ! i = Ref b \<and> heap_get h b = Some (JObject props)
              \<and> props ''link'' = Some l
              \<and> out ! i = Ref b' \<and> length h \<le> b' \<and> b' \<noteq> result
              \<and> heap_get h' b' = Some (JObject props')
              \<and> processExternalLink l tenant domain hostname = Inr l'
              \<and> props' ''link'' = Some l'
              \<and> props' ''__proto__'' = None
              \<and> (\<forall>k. k \<noteq> ''link'' \<and> k \<noteq> ''__proto__'' \<longrightarrow> props' k = props k))))"
proof (intro conjI impI)
  assume "\<not> isArray h externalLinks \<or> \<not> truthy_prim tenant"
  then show "processExternalLinks externalLinks tenant domain hostname h = Inr (externalLinks, h)"
    by (rule processExternalLinks_passthrough)
next
  assume asm: "heap_get h a = Some (JArray links) \<and> truthy_prim tenant
      \<and> (\<forall>v \<in> set links. \<exists>b props s. v = Ref b \<and> heap_get h b = Some (JObject props)
             \<and> props ''link'' = Some (Prim (JStr s)))"
  then have arr: "heap_get h a = Some (JArray links)" and t: "truthy_prim tenant"
    and recs: "\<forall>v \<in> set links. \<exists>b props s. v = Ref b \<and> heap_get h b = Some (JObject props)
             \<and> props ''link'' = Some (Prim (JStr s))"
    by blast+
  let ?n = "length links"
  let ?out = "map Ref [length h ..< length h + ?n]"
  from array_map_records [OF recs, of tenant domain hostname] obtain news where
    am: "array_map (process_element tenant domain hostname) links h = Inr (?out, h @ news)"
    and ln: "length news = ?n"
    and each: "\<And>i b props l. i < ?n \<Longrightarrow> links ! i = Ref b
                 \<Longrightarrow> heap_get h b = Some (JObject props) \<Longrightarrow> props ''link'' = Some l
                 \<Longrightarrow> \<exists>l'. processExternalLink l tenant domain hostname = Inr l'
                          \<and> news ! i = JObject ((props(''__proto__'' := None))(''link'' \<mapsto> l'))"
    by blast
  let ?h' = "(h @ news) @ [JArray ?out]"
  let ?result = "length (h @ news)"
  have run: "processExternalLinks (Ref a) tenant domain hostname h = Inr (Ref ?result, ?h')"
    using arr t am by (rule processExternalLinks_array)
  have frame: "take (length h) ?h' = h" by simp
  have fresh: "length h \<le> ?result" by simp
  have res: "heap_get ?h' ?result = Some (JArray ?out)"
    by (simp add: heap_get_def)
  have len: "length ?out = ?n" by simp
  have dist: "distinct ?out" by (simp add: distinct_map inj_on_def)
  have elems: "\<exists>b props l b' props' l'.
                links ! i = Ref b \<and> heap_get h b = Some (JObject props)
              \<and> props ''link'' = Some l
              \<and> ?out ! i = Ref b' \<and> length h \<le> b' \<and> b' \<noteq> ?result
              \<and> heap_get ?h' b' = Some (JObject props')
              \<and> processExternalLink l tenant domain hostname = Inr l'
              \<and> props' ''link'' = Some l'
              \<and> props' ''__proto__'' = None
              \<and> (\<forall>k. k \<noteq> ''link'' \<and> k \<noteq> ''__proto__'' \<longrightarrow> props' k = props k)"
    if i: "i < ?n" for i
  proof -
    from i have "links ! i \<in> set links" by simp
    with recs obtain b props s where v: "links ! i = Ref b"
      and hb: "heap_get h b = Some (JObject props)"
      and ls: "props ''link'' = Some (Prim (JStr s))"
      by blast
    from each [OF i v hb ls] obtain l' where
      l': "processExternalLink (Prim (JStr s)) tenant domain hostname = Inr l'"
      and ni: "news ! i = JObject ((props(''__proto__'' := None))(''link'' \<mapsto> l'))"
      by blast
    let ?p = "(props(''__proto__'' := None))(''link'' \<mapsto> l')"
    have oi: "?out ! i = Ref (length h + i)" using i by simp
    have g: "heap_get ?h' (length h + i) = Some (JObject ?p)"
      using heap_get_new_at [of i news h "[JArray ?out]"] i ln ni by simp
    have ne: "length h + i \<noteq> ?result" using i ln by simp
    show ?thesis
    proof (intro exI conjI)
      show "links ! i = Ref b" by (rule v)
      show "heap_get h b = Some (JObject props)" by (rule hb)
      show "props ''link'' = Some (Prim (JStr s))" by (rule ls)
      show "?out ! i = Ref (length h + i)" by (rule oi)
      show "length h \<le> length h + i" by simp
      show "length h + i \<noteq> ?result" by (rule ne)
      show "heap_get ?h' (length h + i) = Some (JObject ?p)" by (rule g)
      show "processExternalLink (Prim (JStr s)) tenant domain hostname = Inr l'" by (rule l')
      show "?p ''link'' = Some l'" by simp
      show "?p ''__proto__'' = None" by simp
      show "\<forall>k. k \<noteq> ''link'' \<and> k \<noteq> ''__proto__'' \<longrightarrow> ?p k = props k" by simp
    qed
  qed
  show "\<exists>result h' out.
            processExternalLinks (Ref a) tenant domain hostname h = Inr (Ref result, h')
          \<and> take (length h) h' = h
          \<and> length h \<le> result
          \<and> heap_get h' result = Some (JArray out)
          \<and> length out = length links
          \<and> distinct out
          \<and> (\<forall>i < length links. \<exists>b props l b' props' l'.
                links ! i = Ref b \<and> heap_get h b = Some (JObject props)
              \<and> props ''link'' = Some l
              \<and> out ! i = Ref b' \<and> length h \<le> b' \<and> b' \<noteq> result
              \<and> heap_get h' b' = Some (JObject props')
              \<and> processExternalLink l tenant domain hostname = Inr l'
              \<and> props' ''link'' = Some l'
              \<and> props' ''__proto__'' = None
              \<and> (\<forall>k. k \<noteq> ''link'' \<and> k \<noteq> ''__proto__'' \<longrightarrow> props' k = props k))"
    using run frame fresh res len dist elems by blast
qed

text \<open>
  Two records with further fields, one of them a reference to the other record: the
  order is kept, only \<open>link\<close> is rewritten, the reference is shared, and the input
  heap is a prefix of the output heap.
\<close>

lemma processExternalLinks_example:
  "processExternalLinks (Ref 2) (JStr ''x'') (JStr ''d'') hostname
     [JObject [''link'' \<mapsto> Prim (JStr ''${TENANT}''), ''text'' \<mapsto> Prim (JStr ''A'')],
      JObject [''link'' \<mapsto> Prim (JStr ''https://${DOMAIN}/b''), ''peer'' \<mapsto> Ref 0],
      JArray [Ref 0, Ref 1]]
   = Inr (Ref 5,
       [JObject [''link'' \<mapsto> Prim (JStr ''${TENANT}''), ''text'' \<mapsto> Prim (JStr ''A'')],
        JObject [''link'' \<mapsto> Prim (JStr ''https://${DOMAIN}/b''), ''peer'' \<mapsto> Ref 0],
        JArray [Ref 0, Ref 1],
        JObject [''link'' \<mapsto> Prim (JStr ''x''), ''text'' \<mapsto> Prim (JStr ''A'')],
        JObject [''link'' \<mapsto> Prim (JStr ''https://d/b''), ''peer'' \<mapsto> Ref 0],
        JArray [Ref 3, Ref 4]])"
  by (simp add: processExternalLinks_def isArray_def heap_get_def alloc_def
      process_element_def Object_assign_empty_def own_enumerable_def get_link_def
      set_property_def processExternalLink_def replace_global_def fun_eq_iff)

text \<open>
  Claim C8 says that each element of the result is a shallow copy of the input element
  in which only \<open>link\<close> is rewritten and every other field is preserved. A record with
  an own field \<^verbatim>\<open>__proto__\<close>, as \<^verbatim>\<open>JSON.parse\<close> builds it from
  \<^verbatim>\<open>{"link": "${TENANT}", "__proto__": 1}\<close>, loses that field: the copy holds \<open>link\<close> only.
\<close>

theorem processExternalLinks_drops_proto_field:
  "processExternalLinks (Ref 1) (JStr ''x'') (JStr ''d'') ''x.d''
     [JObject [''link'' \<mapsto> Prim (JStr ''${TENANT}''), ''__proto__'' \<mapsto> Prim (JNum 1)],
      JArray [Ref 0]]
   = Inr (Ref 3,
       [JObject [''link'' \<mapsto> Prim (JStr ''${TENANT}''), ''__proto__'' \<mapsto> Prim (JNum 1)],
        JArray [Ref 0],
        JObject [''link'' \<mapsto> Prim (JStr ''x'')],
        JArray [Ref 2]])"
  by (simp add: processExternalLinks_def isArray_def heap_get_def alloc_def
      process_element_def Object_assign_empty_def own_enumerable_def get_link_def
      set_property_def processExternalLink_def replace_global_def fun_eq_iff)

theorem processExternalLinks_drops_proto_field_witness:
  "\<exists>h'. processExternalLinks (Ref 1) (JStr ''x'') (JStr ''d'') ''x.d''
     [JObject [''link'' \<mapsto> Prim (JStr ''${TENANT}''), ''__proto__'' \<mapsto> Prim (JNum 1)],
      JArray [Ref 0]]
     = Inr (Ref 3, h')
   \<and> heap_get h' 2 = Some (JObject [''link'' \<mapsto> Prim (JStr ''x'')])
   \<and> [''link'' \<mapsto> Prim (JStr ''x'')] ''__proto__'' = None"
  using processExternalLinks_drops_proto_field by (simp add: heap_get_def)

end
